theory Spec2Isabelle
  imports Main "HOL-Library.Multiset" "HOL-Library.Word"
begin

section \<open>JavaScript values of the request payload and of the stored columns\<close>

text \<open>
  The handlers of \<^verbatim>\<open>server/routes.ts\<close> read the amounts of a trip from a JSON payload
  and from rows of the \<^verbatim>\<open>trips\<close> table. A field of the payload may be missing
  (\<open>Undefined\<close>), \<open>null\<close>, a string or a number; the driver returns a numeric column as
  decimal text or \<open>null\<close>. The code tests such values for truthiness (\<^verbatim>\<open>a || b\<close>, \<^verbatim>\<open>if (a)\<close>),
  for being nullish (\<^verbatim>\<open>a ?? b\<close>) and for being missing (\<^verbatim>\<open>a !== undefined\<close>); the three
  tests differ, and the model keeps them apart.
\<close>

datatype jsval = Undefined | Null | Str string | Num int

fun truthy :: "jsval \<Rightarrow> bool" where
  "truthy Undefined = False"
| "truthy Null = False"
| "truthy (Str s) = (s \<noteq> [])"
| "truthy (Num n) = (n \<noteq> 0)"

text \<open>\<^verbatim>\<open>a || b\<close> and \<^verbatim>\<open>a ?? b\<close>.\<close>

definition js_or :: "jsval \<Rightarrow> jsval \<Rightarrow> jsval" where
  "js_or a b = (if truthy a then a else b)"

definition nullish :: "jsval \<Rightarrow> jsval \<Rightarrow> jsval" where
  "nullish a b = (if a = Undefined \<or> a = Null then b else a)"

subsection \<open>Numbers and their decimal text\<close>

text \<open>
  Amounts are modelled on the whole numbers, where the double arithmetic of JavaScript is
  exact (below \<open>2^53\<close>): a number is \<open>NaN\<close> or an integer. \<open>StringToNumber\<close> reads
  whole-number decimal text (an optional sign and digits; the empty string is \<open>0\<close>, as in
  JavaScript); text with a fraction or an exponent is outside this model and reads as
  \<open>NaN\<close> here.
\<close>

datatype jsnum = NaN | Fin int

fun js_sub :: "jsnum \<Rightarrow> jsnum \<Rightarrow> jsnum" where
  "js_sub (Fin a) (Fin b) = Fin (a - b)"
| "js_sub _ _ = NaN"

fun js_add :: "jsnum \<Rightarrow> jsnum \<Rightarrow> jsnum" where
  "js_add (Fin a) (Fin b) = Fin (a + b)"
| "js_add _ _ = NaN"

definition digit_char :: "nat \<Rightarrow> char" where
  "digit_char d = char_of (48 + d)"

definition digit_of :: "char \<Rightarrow> nat option" where
  "digit_of c =
     (let n = (of_char c :: nat) in if 48 \<le> n \<and> n \<le> 57 then Some (n - 48) else None)"

function show_nat :: "nat \<Rightarrow> string" where
  "show_nat n = (if n < 10 then [digit_char n] else show_nat (n div 10) @ [digit_char (n mod 10)])"
  by pat_completeness auto
termination
  by (relation "measure id") auto

declare show_nat.simps [simp del]

fun digits_value :: "string \<Rightarrow> nat \<Rightarrow> nat option" where
  "digits_value [] acc = Some acc"
| "digits_value (c # cs) acc =
     (case digit_of c of None \<Rightarrow> None | Some d \<Rightarrow> digits_value cs (10 * acc + d))"

definition StringToNumber :: "string \<Rightarrow> jsnum" where
  "StringToNumber s =
     (case s of
        [] \<Rightarrow> Fin 0
      | c # cs \<Rightarrow>
          if c = CHR ''-'' \<or> c = CHR ''+'' then
            (if cs = [] then NaN
             else case digits_value cs 0 of
                    None \<Rightarrow> NaN
                  | Some n \<Rightarrow> Fin (if c = CHR ''-'' then - int n else int n))
          else (case digits_value s 0 of None \<Rightarrow> NaN | Some n \<Rightarrow> Fin (int n)))"

fun Number :: "jsval \<Rightarrow> jsnum" where
  "Number Undefined = NaN"
| "Number Null = Fin 0"
| "Number (Num n) = Fin n"
| "Number (Str s) = StringToNumber s"

fun toString :: "jsnum \<Rightarrow> string" where
  "toString NaN = ''NaN''"
| "toString (Fin i) = (if i < 0 then CHR ''-'' # show_nat (nat (- i)) else show_nat (nat i))"

section \<open>The data model\<close>

text \<open>
  Modelled from the spec: the table and role declarations (\<^verbatim>\<open>@shared/schema\<close>) are not
  among the source files. The spec names the roles ADMIN and MANAGER and the statuses
  PENDING, COMPLETED and SETTLED; the code only compares with these constants, so all
  that matters is that they are distinct.
\<close>

definition ROLES_ADMIN :: string where "ROLES_ADMIN = ''ADMIN''"
definition ROLES_MANAGER :: string where "ROLES_MANAGER = ''MANAGER''"
definition TRIP_STATUS_PENDING :: string where "TRIP_STATUS_PENDING = ''PENDING''"
definition TRIP_STATUS_COMPLETED :: string where "TRIP_STATUS_COMPLETED = ''COMPLETED''"
definition TRIP_STATUS_SETTLED :: string where "TRIP_STATUS_SETTLED = ''SETTLED''"

text \<open>
  A row of \<^verbatim>\<open>users\<close>, with the columns the code reads. The authenticated caller, \<^verbatim>\<open>req.user\<close>,
  is such a row; it is \<open>None\<close> when \<^verbatim>\<open>req.isAuthenticated()\<close> is false.
\<close>

record user =
  user_id :: nat
  username :: string
  password :: string
  role :: string

text \<open>
  A row of \<^verbatim>\<open>trips\<close>. The amounts and the owner name, which the code guards with
  \<^verbatim>\<open>|| 0\<close> and \<^verbatim>\<open>|| 'Unknown'\<close>, are nullable columns (\<open>Null\<close> or text), and so is the
  party name; a loading date is its instant.
\<close>

record trip =
  id_col :: nat
  tripId :: string
  vehicleNumber :: string
  vehicleType :: string
  loadingDate :: int
  status :: string
  partyName :: jsval
  partyFreight :: jsval
  partyAdvance :: jsval
  partyBalance :: jsval
  motorOwnerName :: jsval
  motorOwnerBhada :: jsval
  motorOwnerAdvance :: jsval
  motorOwnerBalance :: jsval

text \<open>
  \<^verbatim>\<open>Partial<InsertTrip>\<close>, the parsed payload of a create or an update: every field may
  be missing (\<open>None\<close>, \<open>Undefined\<close>). It has no \<^verbatim>\<open>id\<close> and no \<^verbatim>\<open>tripId\<close>.
\<close>

record insert_trip =
  in_vehicleNumber :: "string option"
  in_vehicleType :: "string option"
  in_loadingDate :: "int option"
  in_status :: "string option"
  in_partyName :: jsval
  in_partyFreight :: jsval
  in_partyAdvance :: jsval
  in_partyBalance :: jsval
  in_motorOwnerName :: jsval
  in_motorOwnerBhada :: jsval
  in_motorOwnerAdvance :: jsval
  in_motorOwnerBalance :: jsval

text \<open>
  The table: its rows in insertion order, the next value of the serial \<^verbatim>\<open>id\<close>, and the
  column defaults an insert uses for a field the payload leaves out (they belong to the
  table declaration, so they are a component of the state and every theorem holds for
  any defaults).
\<close>

record trips_table =
  rows :: "trip list"
  serial :: nat
  defaults :: trip

section \<open>The Trip Ledger: \<^verbatim>\<open>server/storage.ts\<close>\<close>

text \<open>A column takes the supplied value; a missing field leaves the fallback in place.\<close>

definition column :: "'a option \<Rightarrow> 'a \<Rightarrow> 'a" where
  "column v d = (case v of None \<Rightarrow> d | Some x \<Rightarrow> x)"

definition jcolumn :: "jsval \<Rightarrow> jsval \<Rightarrow> jsval" where
  "jcolumn v d = (if v = Undefined then d else v)"

definition set_columns :: "insert_trip \<Rightarrow> trip \<Rightarrow> trip" where
  "set_columns i t =
     t\<lparr>vehicleNumber := column (in_vehicleNumber i) (vehicleNumber t),
       vehicleType := column (in_vehicleType i) (vehicleType t),
       loadingDate := column (in_loadingDate i) (loadingDate t),
       status := column (in_status i) (status t),
       partyName := jcolumn (in_partyName i) (partyName t),
       partyFreight := jcolumn (in_partyFreight i) (partyFreight t),
       partyAdvance := jcolumn (in_partyAdvance i) (partyAdvance t),
       partyBalance := jcolumn (in_partyBalance i) (partyBalance t),
       motorOwnerName := jcolumn (in_motorOwnerName i) (motorOwnerName t),
       motorOwnerBhada := jcolumn (in_motorOwnerBhada i) (motorOwnerBhada t),
       motorOwnerAdvance := jcolumn (in_motorOwnerAdvance i) (motorOwnerAdvance t),
       motorOwnerBalance := jcolumn (in_motorOwnerBalance i) (motorOwnerBalance t)\<rparr>"

text \<open>\<^verbatim>\<open>getTrip\<close>: the first row with the identifier, or \<^verbatim>\<open>undefined\<close>.\<close>

definition getTrip :: "nat \<Rightarrow> trips_table \<Rightarrow> trip option" where
  "getTrip i tbl = find (\<lambda>t. id_col t = i) (rows tbl)"

text \<open>\<^verbatim>\<open>createTrip\<close>: \<^verbatim>\<open>insert(trips).values(trip).returning()\<close>.\<close>

definition createTrip :: "insert_trip \<Rightarrow> string \<Rightarrow> trips_table \<Rightarrow> trip \<times> trips_table" where
  "createTrip i code tbl =
     (let newTrip = set_columns i ((defaults tbl)\<lparr>id_col := serial tbl, tripId := code\<rparr>)
      in (newTrip, tbl\<lparr>rows := rows tbl @ [newTrip], serial := Suc (serial tbl)\<rparr>))"

text \<open>
  The errors that are raised. \<^verbatim>\<open>set\<close> drops the fields that are \<^verbatim>\<open>undefined\<close> and raises
  \<^verbatim>\<open>Error('No values to set')\<close> when none is left, before any row is touched; the other two
  are raised when a stored password is compared.
\<close>

datatype js_error = NoValuesToSet | TypeError | RangeError

definition no_values :: "insert_trip \<Rightarrow> bool" where
  "no_values p =
     (in_vehicleNumber p = None \<and> in_vehicleType p = None \<and> in_loadingDate p = None \<and>
      in_status p = None \<and> in_partyName p = Undefined \<and> in_partyFreight p = Undefined \<and>
      in_partyAdvance p = Undefined \<and> in_partyBalance p = Undefined \<and>
      in_motorOwnerName p = Undefined \<and> in_motorOwnerBhada p = Undefined \<and>
      in_motorOwnerAdvance p = Undefined \<and> in_motorOwnerBalance p = Undefined)"

text \<open>
  \<^verbatim>\<open>updateTrip\<close>: \<^verbatim>\<open>update(trips).set(trip).where(eq(trips.id, id)).returning()\<close>, then the
  first returned row. A field the payload leaves out is not written, a \<open>null\<close> is. With no
  matching row the destructuring yields \<^verbatim>\<open>undefined\<close>, which is returned. What the columns
  themselves refuse or rewrite belongs to the table declaration and is not modelled: a row
  keeps a value as it was written, which is what the table does with the amounts of
  \<open>column_amounts\<close> below.
\<close>

definition updateTrip ::
  "nat \<Rightarrow> insert_trip \<Rightarrow> trips_table \<Rightarrow> (js_error + trip option) \<times> trips_table" where
  "updateTrip i p tbl =
     (if no_values p then (Inl NoValuesToSet, tbl)
      else
        let rows' = map (\<lambda>t. if id_col t = i then set_columns p t else t) (rows tbl);
            returning = filter (\<lambda>t. id_col t = i) rows'
        in (Inr (case returning of [] \<Rightarrow> None | updatedTrip # _ \<Rightarrow> Some updatedTrip),
            tbl\<lparr>rows := rows'\<rparr>))"

text \<open>
  The amounts of a payload that a numeric column returns as they were written: a missing
  field, \<open>null\<close>, or a whole number in its plain decimal text (the text that the number it
  reads as is printed as). Other text the column refuses (\<^verbatim>\<open>''\<close>) or rewrites (\<^verbatim>\<open>'030'\<close>).
\<close>

definition column_amount :: "jsval \<Rightarrow> bool" where
  "column_amount v =
     (case v of
        Undefined \<Rightarrow> True
      | Null \<Rightarrow> True
      | Str s \<Rightarrow> (case StringToNumber s of NaN \<Rightarrow> False | Fin n \<Rightarrow> toString (Fin n) = s)
      | Num n \<Rightarrow> False)"

definition column_amounts :: "insert_trip \<Rightarrow> bool" where
  "column_amounts p =
     list_all column_amount
       [in_partyFreight p, in_partyAdvance p, in_partyBalance p, in_motorOwnerBhada p,
        in_motorOwnerAdvance p, in_motorOwnerBalance p]"

text \<open>
  A row as the driver delivers it: SQL \<open>NULL\<close> arrives as \<open>null\<close>, so no column of a row
  that the handlers read is \<^verbatim>\<open>undefined\<close>.
\<close>

definition driver_value :: "jsval \<Rightarrow> jsval" where
  "driver_value v = (if v = Undefined then Null else v)"

definition driver_row :: "trip \<Rightarrow> trip" where
  "driver_row t =
     t\<lparr>partyName := driver_value (partyName t),
       partyFreight := driver_value (partyFreight t),
       partyAdvance := driver_value (partyAdvance t),
       partyBalance := driver_value (partyBalance t),
       motorOwnerName := driver_value (motorOwnerName t),
       motorOwnerBhada := driver_value (motorOwnerBhada t),
       motorOwnerAdvance := driver_value (motorOwnerAdvance t),
       motorOwnerBalance := driver_value (motorOwnerBalance t)\<rparr>"

subsection \<open>\<^verbatim>\<open>getTrips\<close>\<close>

text \<open>
  PostgreSQL's \<^verbatim>\<open>LIKE\<close>: \<^verbatim>\<open>%\<close> stands for any run of characters, \<^verbatim>\<open>_\<close> for any one
  character, and a backslash takes the next character literally. \<^verbatim>\<open>ILIKE\<close> compares
  without regard to case (ASCII letters here).
\<close>

fun like :: "string \<Rightarrow> string \<Rightarrow> bool" where
  "like [] s = (s = [])"
| "like (p # ps) s =
     (if p = CHR ''%'' then
        like ps s \<or> (case s of [] \<Rightarrow> False | c # cs \<Rightarrow> like (p # ps) cs)
      else if p = CHR 0x5C then
        (case ps of
           [] \<Rightarrow> False
         | q # qs \<Rightarrow> (case s of [] \<Rightarrow> False | c # cs \<Rightarrow> q = c \<and> like qs cs))
      else (case s of [] \<Rightarrow> False | c # cs \<Rightarrow> (p = CHR ''_'' \<or> p = c) \<and> like ps cs))"

definition lower_char :: "char \<Rightarrow> char" where
  "lower_char c =
     (let n = (of_char c :: nat) in if 65 \<le> n \<and> n \<le> 90 then char_of (n + 32) else c)"

definition ilike :: "string \<Rightarrow> string \<Rightarrow> bool" where
  "ilike s pat = like (map lower_char pat) (map lower_char s)"

record trip_filters =
  flt_vehicleNumber :: "string option"
  flt_tripId :: "string option"
  flt_loadedAfter :: "int option"
  flt_settled :: "bool option"

text \<open>\<^verbatim>\<open>filters?.x\<close> is \<^verbatim>\<open>undefined\<close> when no filter object is passed.\<close>

definition opt_field :: "('f \<Rightarrow> 'a option) \<Rightarrow> 'f option \<Rightarrow> 'a option" where
  "opt_field sel filters = (case filters of None \<Rightarrow> None | Some f \<Rightarrow> sel f)"

definition conditions :: "trip_filters option \<Rightarrow> (trip \<Rightarrow> bool) list" where
  "conditions filters =
     (case opt_field flt_vehicleNumber filters of
        None \<Rightarrow> []
      | Some v \<Rightarrow> if v = [] then [] else [\<lambda>t. ilike (vehicleNumber t) (''%'' @ v @ ''%'')])
     @ (case opt_field flt_tripId filters of
          None \<Rightarrow> []
        | Some v \<Rightarrow> if v = [] then [] else [\<lambda>t. ilike (tripId t) (''%'' @ v @ ''%'')])
     @ (case opt_field flt_loadedAfter filters of
          None \<Rightarrow> []
        | Some d \<Rightarrow> [\<lambda>t. d \<le> loadingDate t])
     @ (if opt_field flt_settled filters = Some True then [\<lambda>t. status t = TRIP_STATUS_SETTLED]
        else if opt_field flt_settled filters = Some False then [\<lambda>t. status t \<noteq> TRIP_STATUS_SETTLED]
        else [])"

text \<open>
  \<^verbatim>\<open>where(and(...conditions)).orderBy(desc(trips.loadingDate))\<close>. SQL leaves the order of
  rows with equal dates open; the model keeps them in table order.
\<close>

definition orderBy_desc :: "(trip \<Rightarrow> int) \<Rightarrow> trip list \<Rightarrow> trip list" where
  "orderBy_desc k ts = sort_key (\<lambda>t. - k t) ts"

definition getTrips :: "trip_filters option \<Rightarrow> trips_table \<Rightarrow> trip list" where
  "getTrips filters tbl =
     orderBy_desc loadingDate
       (filter (\<lambda>t. list_all (\<lambda>c. c t) (conditions filters)) (rows tbl))"

subsection \<open>\<^verbatim>\<open>getMotorOwnerAnalytics\<close>\<close>

text \<open>
  The query groups the rows whose vehicle type is \<^verbatim>\<open>'MARKET'\<close> by motor-owner name and
  computes \<^verbatim>\<open>count(*)\<close> and three \<^verbatim>\<open>sum\<close>s per group. The model aggregates row by row, as
  a hash aggregate does: \<open>group_add\<close> finds the group of a row's key (two \<open>Null\<close> keys are
  one group, as in SQL) or opens a new one. A \<^verbatim>\<open>sum\<close> skips \<open>null\<close> inputs and is \<open>null\<close>
  while it has seen no other.
\<close>

record owner_group =
  g_count :: nat
  g_bhada :: "jsnum option"
  g_advance :: "jsnum option"
  g_balance :: "jsnum option"

definition sql_sum_step :: "jsnum option \<Rightarrow> jsval \<Rightarrow> jsnum option" where
  "sql_sum_step acc v =
     (if v = Null \<or> v = Undefined then acc
      else Some (case acc of None \<Rightarrow> Number v | Some a \<Rightarrow> js_add a (Number v)))"

definition group_init :: owner_group where
  "group_init = \<lparr>g_count = 0, g_bhada = None, g_advance = None, g_balance = None\<rparr>"

definition group_step :: "trip \<Rightarrow> owner_group \<Rightarrow> owner_group" where
  "group_step t g =
     \<lparr>g_count = Suc (g_count g),
      g_bhada = sql_sum_step (g_bhada g) (motorOwnerBhada t),
      g_advance = sql_sum_step (g_advance g) (motorOwnerAdvance t),
      g_balance = sql_sum_step (g_balance g) (motorOwnerBalance t)\<rparr>"

fun group_add :: "trip \<Rightarrow> (jsval \<times> owner_group) list \<Rightarrow> (jsval \<times> owner_group) list" where
  "group_add t [] = [(motorOwnerName t, group_step t group_init)]"
| "group_add t ((k, g) # gs) =
     (if k = motorOwnerName t then (k, group_step t g) # gs else (k, g) # group_add t gs)"

definition motorOwnerGroups :: "trips_table \<Rightarrow> (jsval \<times> owner_group) list" where
  "motorOwnerGroups tbl =
     foldl (\<lambda>gs t. group_add t gs) [] (filter (\<lambda>t. vehicleType t = ''MARKET'') (rows tbl))"

text \<open>
  The driver returns \<^verbatim>\<open>count\<close> and \<^verbatim>\<open>sum\<close> as decimal text (or \<open>null\<close>); the \<^verbatim>\<open>map\<close> of the
  source turns them into numbers and an empty name into \<^verbatim>\<open>'Unknown'\<close>.
\<close>

definition sum_text :: "jsnum option \<Rightarrow> jsval" where
  "sum_text acc = (case acc of None \<Rightarrow> Null | Some n \<Rightarrow> Str (toString n))"

record owner_row =
  name :: jsval
  tripsDone :: jsnum
  totalBhada :: jsnum
  paid :: jsnum
  balance :: jsnum

definition owner_row_of :: "jsval \<times> owner_group \<Rightarrow> owner_row" where
  "owner_row_of r =
     \<lparr>name = js_or (fst r) (Str ''Unknown''),
      tripsDone = Number (Str (show_nat (g_count (snd r)))),
      totalBhada = Number (sum_text (g_bhada (snd r))),
      paid = Number (sum_text (g_advance (snd r))),
      balance = Number (sum_text (g_balance (snd r)))\<rparr>"

definition getMotorOwnerAnalytics :: "trips_table \<Rightarrow> owner_row list" where
  "getMotorOwnerAnalytics tbl = map owner_row_of (motorOwnerGroups tbl)"

text \<open>
  For comparison with the aggregation above, the sum in the words of the spec: the amounts
  that are present, read as numbers and added up (\<open>0\<close> when there is none).
\<close>

fun sum_numbers :: "jsval list \<Rightarrow> jsnum" where
  "sum_numbers [] = Fin 0"
| "sum_numbers (v # vs) =
     (if v = Null \<or> v = Undefined then sum_numbers vs else js_add (Number v) (sum_numbers vs))"

text \<open>The number a running \<^verbatim>\<open>sum\<close> stands for once the source has applied \<^verbatim>\<open>Number\<close> to it.\<close>

definition acc_num :: "jsnum option \<Rightarrow> jsnum" where
  "acc_num acc = (case acc of None \<Rightarrow> Fin 0 | Some a \<Rightarrow> a)"

text \<open>The aggregate of a list of rows.\<close>

definition aggregate :: "trip list \<Rightarrow> owner_group" where
  "aggregate ts = foldl (\<lambda>g t. group_step t g) group_init ts"

text \<open>
  The amounts on which this model's numbers are the program's: \<open>null\<close> or whole-number
  decimal text (an optional sign and digits), with totals that stay within \<open>2^53\<close>, where
  the double that \<^verbatim>\<open>Number\<close> reads from a sum is the sum itself.
\<close>

definition all_digits :: "string \<Rightarrow> bool" where
  "all_digits s = (s \<noteq> [] \<and> list_all (\<lambda>c. digit_of c \<noteq> None) s)"

definition whole_text :: "string \<Rightarrow> bool" where
  "whole_text s =
     (case s of
        [] \<Rightarrow> False
      | c # cs \<Rightarrow> if c = CHR ''-'' \<or> c = CHR ''+'' then all_digits cs else all_digits s)"

definition whole_amount :: "jsval \<Rightarrow> bool" where
  "whole_amount v = (case v of Null \<Rightarrow> True | Str s \<Rightarrow> whole_text s | _ \<Rightarrow> False)"

definition whole_value :: "jsval \<Rightarrow> int" where
  "whole_value v = (case Number v of Fin n \<Rightarrow> n | NaN \<Rightarrow> 0)"

definition safe_total :: "jsval list \<Rightarrow> bool" where
  "safe_total vs = (sum_list (map (\<lambda>v. \<bar>whole_value v\<bar>) vs) \<le> 2 ^ 53)"

definition whole_amounts :: "trip list \<Rightarrow> bool" where
  "whole_amounts ts =
     (list_all (\<lambda>t. whole_amount (motorOwnerBhada t) \<and> whole_amount (motorOwnerAdvance t) \<and>
                    whole_amount (motorOwnerBalance t)) ts \<and>
      safe_total (map motorOwnerBhada ts) \<and> safe_total (map motorOwnerAdvance ts) \<and>
      safe_total (map motorOwnerBalance ts))"

section \<open>The route handlers: \<^verbatim>\<open>server/routes.ts\<close>\<close>

text \<open>
  A handler takes the caller, the result of parsing the request body (the zod schema is
  declared outside the source files, so the outcome of \<^verbatim>\<open>parse\<close> is an input: the first
  issue's message and path, or the parsed payload) and the table; it returns the response
  and the table it leaves.
\<close>

datatype zod_error = ZodError string string

datatype body =
    StatusText
  | TripJson "trip option"
  | TripsJson "trip list"
  | MessageJson string
  | ValidationJson string string
  | UserJson user
  | Uncaught js_error

type_synonym response = "nat \<times> body"

text \<open>
  The balance expression of the handlers,
  \<^verbatim>\<open>(Number(a || 0) - Number(b || 0)).toString()\<close>.
\<close>

definition calcBalance :: "jsval \<Rightarrow> jsval \<Rightarrow> jsval" where
  "calcBalance a b = Str (toString (js_sub (Number (js_or a (Num 0))) (Number (js_or b (Num 0)))))"

text \<open>
  The invariant of the spec on a stored row: each balance, as a number, is the gross amount
  minus the advance, an absent amount counting as zero.
\<close>

definition amount :: "jsval \<Rightarrow> jsnum" where
  "amount v = Number (js_or v (Num 0))"

definition balance_ok :: "trip \<Rightarrow> bool" where
  "balance_ok t =
     (Number (partyBalance t) = js_sub (amount (partyFreight t)) (amount (partyAdvance t)) \<and>
      Number (motorOwnerBalance t) =
        js_sub (amount (motorOwnerBhada t)) (amount (motorOwnerAdvance t)))"

text \<open>A field of the payload that is either missing or truthy (non-empty text, non-zero).\<close>

definition missing_or_truthy :: "jsval \<Rightarrow> bool" where
  "missing_or_truthy v = (v = Undefined \<or> truthy v)"





text \<open>\<^verbatim>\<open>POST\<close> create trip; \<open>year\<close> is \<^verbatim>\<open>new Date().getFullYear()\<close>.\<close>

definition createTripHandler ::
  "user option \<Rightarrow> nat \<Rightarrow> zod_error + insert_trip \<Rightarrow> trips_table \<Rightarrow> response \<times> trips_table" where
  "createTripHandler caller year parsed tbl =
     (case caller of
        None \<Rightarrow> ((401, StatusText), tbl)
      | Some u \<Rightarrow>
          (case parsed of
             Inl (ZodError m f) \<Rightarrow> ((400, ValidationJson m f), tbl)
           | Inr input \<Rightarrow>
               let count = length (getTrips None tbl) + 1;
                   code = show_nat year @ ''_'' @ show_nat count;
                   ownerBalance = calcBalance (in_motorOwnerBhada input) (in_motorOwnerAdvance input);
                   partyBal = calcBalance (in_partyFreight input) (in_partyAdvance input);
                   (newTrip, tbl') =
                     createTrip
                       (input\<lparr>in_motorOwnerBalance := ownerBalance, in_partyBalance := partyBal\<rparr>)
                       code tbl
               in ((201, TripJson (Some newTrip)), tbl')))"

text \<open>
  \<^verbatim>\<open>PUT\<close> update trip. \<open>update_values\<close> is the object the handler hands to \<^verbatim>\<open>updateTrip\<close>:
  the payload with the two balances, recomputed or carried forward. An error raised by the
  ledger is rethrown by the handler; the spec's generic failure response stands for it.
\<close>

definition update_values :: "insert_trip \<Rightarrow> trip \<Rightarrow> insert_trip" where
  "update_values input existingTrip =
     (let ownerBalance =
            (if truthy (js_or (in_motorOwnerBhada input) (in_motorOwnerAdvance input))
             then calcBalance
                    (nullish (in_motorOwnerBhada input) (motorOwnerBhada existingTrip))
                    (nullish (in_motorOwnerAdvance input) (motorOwnerAdvance existingTrip))
             else motorOwnerBalance existingTrip);
          partyBal =
            (if truthy (js_or (in_partyFreight input) (in_partyAdvance input))
             then calcBalance
                    (nullish (in_partyFreight input) (partyFreight existingTrip))
                    (nullish (in_partyAdvance input) (partyAdvance existingTrip))
             else partyBalance existingTrip)
      in input\<lparr>in_motorOwnerBalance := ownerBalance, in_partyBalance := partyBal\<rparr>)"

definition updateTripHandler ::
  "user option \<Rightarrow> nat \<Rightarrow> zod_error + insert_trip \<Rightarrow> trips_table \<Rightarrow> response \<times> trips_table" where
  "updateTripHandler caller i parsed tbl =
     (case caller of
        None \<Rightarrow> ((401, StatusText), tbl)
      | Some u \<Rightarrow>
          (case parsed of
             Inl (ZodError m f) \<Rightarrow> ((400, ValidationJson m f), tbl)
           | Inr input \<Rightarrow>
               (case getTrip i tbl of
                  None \<Rightarrow> ((404, StatusText), tbl)
                | Some row \<Rightarrow>
                    let existingTrip = driver_row row in
                    if role u \<noteq> ROLES_ADMIN \<and>
                       (status existingTrip = TRIP_STATUS_COMPLETED \<or>
                        status existingTrip = TRIP_STATUS_SETTLED)
                    then ((403, MessageJson ''Managers cannot edit completed or settled trips.''), tbl)
                    else if role u \<noteq> ROLES_ADMIN \<and> in_motorOwnerBhada input \<noteq> Undefined
                    then ((403, MessageJson ''Managers cannot edit Bhada.''), tbl)
                    else
                      (case updateTrip i (update_values input existingTrip) tbl of
                         (Inl e, tbl') \<Rightarrow> ((500, Uncaught e), tbl')
                       | (Inr updatedTrip, tbl') \<Rightarrow> ((200, TripJson updatedTrip), tbl')))))"

section \<open>Login: the stored password hash and the local strategy\<close>

text \<open>The table \<^verbatim>\<open>users\<close> and \<^verbatim>\<open>storage.getUserByUsername\<close>: the first row of the selection.\<close>

definition getUserByUsername :: "string \<Rightarrow> user list \<Rightarrow> user option" where
  "getUserByUsername uname users =
     (case filter (\<lambda>u. username u = uname) users of [] \<Rightarrow> None | user # _ \<Rightarrow> Some user)"

text \<open>
  A \<^verbatim>\<open>Buffer\<close> is a list of bytes. \<^verbatim>\<open>buf.toString("hex")\<close> writes two lower-case hexadecimal
  digits for each byte; \<^verbatim>\<open>Buffer.from(text, "hex")\<close> reads pairs of hexadecimal digits of either
  case and stops at the first pair that is not one.
\<close>

type_synonym buffer = "8 word list"

definition hex_char :: "nat \<Rightarrow> char" where
  "hex_char n = (if n < 10 then char_of (48 + n) else char_of (87 + n))"

definition hex_value :: "char \<Rightarrow> nat option" where
  "hex_value c =
     (let n = of_char c :: nat
      in if 48 \<le> n \<and> n \<le> 57 then Some (n - 48)
         else if 97 \<le> n \<and> n \<le> 102 then Some (n - 87)
         else if 65 \<le> n \<and> n \<le> 70 then Some (n - 55)
         else None)"

definition toString_hex :: "buffer \<Rightarrow> string" where
  "toString_hex buf = concat (map (\<lambda>b. [hex_char (unat b div 16), hex_char (unat b mod 16)]) buf)"

fun Buffer_from_hex :: "string \<Rightarrow> buffer" where
  "Buffer_from_hex (c # d # text) =
     (case hex_value c of
        None \<Rightarrow> []
      | Some hi \<Rightarrow>
          (case hex_value d of
             None \<Rightarrow> []
           | Some lo \<Rightarrow> of_nat (16 * hi + lo) # Buffer_from_hex text))"
| "Buffer_from_hex _ = []"

text \<open>\<^verbatim>\<open>text.split(":")\<close>: the pieces between the colons, at least one.\<close>

fun split_from :: "char \<Rightarrow> string \<Rightarrow> string \<Rightarrow> string list" where
  "split_from sep piece [] = [piece]"
| "split_from sep piece (c # text) =
     (if c = sep then piece # split_from sep [] text else split_from sep (piece @ [c]) text)"

definition split :: "char \<Rightarrow> string \<Rightarrow> string list" where
  "split sep text = split_from sep [] text"

text \<open>
  \<^verbatim>\<open>crypto.timingSafeEqual\<close> raises a \<^verbatim>\<open>RangeError\<close> on buffers of different lengths and
  compares them otherwise.
\<close>

definition timingSafeEqual :: "buffer \<Rightarrow> buffer \<Rightarrow> js_error + bool" where
  "timingSafeEqual a b = (if length a \<noteq> length b then Inl RangeError else Inr (a = b))"

text \<open>
  \<^verbatim>\<open>hashPassword\<close> and \<^verbatim>\<open>comparePasswords\<close>. The key derivation \<^verbatim>\<open>scrypt\<close> of the \<^verbatim>\<open>crypto\<close>
  module is a parameter (password, salt, key length); the sixteen random bytes of the salt
  are an input. In \<^verbatim>\<open>comparePasswords\<close> the pattern \<^verbatim>\<open>[salt, key]\<close> takes the first two pieces
  of the stored text; without a colon \<^verbatim>\<open>key\<close> is \<^verbatim>\<open>undefined\<close> and \<^verbatim>\<open>Buffer.from\<close> raises a
  \<^verbatim>\<open>TypeError\<close>.
\<close>

definition hashPassword :: "(string \<Rightarrow> string \<Rightarrow> nat \<Rightarrow> buffer) \<Rightarrow> buffer \<Rightarrow> string \<Rightarrow> string" where
  "hashPassword scrypt randomBytes pw =
     (let salt = toString_hex randomBytes;
          derivedKey = scrypt pw salt 64
      in salt @ '':'' @ toString_hex derivedKey)"

definition comparePasswords ::
  "(string \<Rightarrow> string \<Rightarrow> nat \<Rightarrow> buffer) \<Rightarrow> string \<Rightarrow> string \<Rightarrow> js_error + bool" where
  "comparePasswords scrypt supplied stored =
     (case split CHR '':'' stored of
        [] \<Rightarrow> Inl TypeError
      | salt # rest \<Rightarrow>
          (let derivedKey = scrypt supplied salt 64
           in case rest of
                [] \<Rightarrow> Inl TypeError
              | key # _ \<Rightarrow> timingSafeEqual (Buffer_from_hex key) derivedKey))"

text \<open>
  The verify callback of the \<^verbatim>\<open>LocalStrategy\<close>: \<^verbatim>\<open>done(null, false, {message})\<close>,
  \<^verbatim>\<open>done(null, user)\<close> or, from the \<^verbatim>\<open>catch\<close>, \<^verbatim>\<open>done(err)\<close>.
\<close>

datatype verified = Failed string | Verified user | Errored js_error

definition verify ::
  "(string \<Rightarrow> string \<Rightarrow> nat \<Rightarrow> buffer) \<Rightarrow> user list \<Rightarrow> string \<Rightarrow> string \<Rightarrow> verified" where
  "verify scrypt users uname pw =
     (case getUserByUsername uname users of
        None \<Rightarrow> Failed ''Incorrect username.''
      | Some user \<Rightarrow>
          (case comparePasswords scrypt pw (password user) of
             Inl err \<Rightarrow> Errored err
           | Inr isValid \<Rightarrow>
               if \<not> isValid then Failed ''Incorrect password.'' else Verified user))"

text \<open>
  Modelled from the spec: the middleware \<^verbatim>\<open>passport.authenticate("local")\<close> of the packages
  \<^verbatim>\<open>passport\<close> and \<^verbatim>\<open>passport-local\<close> is not among the source files. The specification has a
  login answer 401 on a bad credential and establish a session on a good one; the packages
  document the rest. The strategy takes \<^verbatim>\<open>username\<close> and \<^verbatim>\<open>password\<close> from the request body
  and fails with status 400 when one is missing or empty, before the verify callback runs.
  When the callback fails, the middleware, called with neither options nor a callback of its
  own, answers 401 with the text of that status; the message of the callback is dropped and
  the session is left alone. When the callback reports an error, the error goes to the error
  handler. When it yields a user, \<^verbatim>\<open>req.logIn\<close> stores what \<^verbatim>\<open>serializeUser\<close> gives, here
  \<^verbatim>\<open>user.id\<close>, in the session, sets \<^verbatim>\<open>req.user\<close> and calls the next handler. The session is the
  user id it holds, if any.
\<close>

definition authenticate_local ::
  "(string \<Rightarrow> string \<Rightarrow> verified) \<Rightarrow> string option \<Rightarrow> string option \<Rightarrow> nat option
     \<Rightarrow> (response + user) \<times> nat option" where
  "authenticate_local verify_callback username_field password_field session =
     (case (username_field, password_field) of
        (Some uname, Some pw) \<Rightarrow>
          if uname = [] \<or> pw = [] then (Inl (400, StatusText), session)
          else (case verify_callback uname pw of
                  Failed info \<Rightarrow> (Inl (401, StatusText), session)
                | Errored err \<Rightarrow> (Inl (500, Uncaught err), session)
                | Verified user \<Rightarrow> (Inr user, Some (user_id user)))
      | _ \<Rightarrow> (Inl (400, StatusText), session))"

text \<open>
  The login route: the middleware, then \<^verbatim>\<open>res.json(req.user)\<close>. It returns the response
  and the session.
\<close>

definition login ::
  "(string \<Rightarrow> string \<Rightarrow> nat \<Rightarrow> buffer) \<Rightarrow> user list \<Rightarrow> string option \<Rightarrow> string option
     \<Rightarrow> nat option \<Rightarrow> response \<times> nat option" where
  "login scrypt users username_field password_field session =
     (case authenticate_local (verify scrypt users) username_field password_field session of
        (Inl reply, session') \<Rightarrow> (reply, session')
      | (Inr user, session') \<Rightarrow> ((200, UserJson user), session'))"

section \<open>Concrete requests and tables\<close>

text \<open>The payload \<^verbatim>\<open>{}\<close>, two callers, and small tables on which the theorems are run.\<close>

definition no_fields :: insert_trip where
  "no_fields =
     \<lparr>in_vehicleNumber = None, in_vehicleType = None, in_loadingDate = None, in_status = None,
      in_partyName = Undefined, in_partyFreight = Undefined, in_partyAdvance = Undefined,
      in_partyBalance = Undefined, in_motorOwnerName = Undefined, in_motorOwnerBhada = Undefined,
      in_motorOwnerAdvance = Undefined, in_motorOwnerBalance = Undefined\<rparr>"

definition ex_manager :: user where
  "ex_manager = \<lparr>user_id = 2, username = ''ravi'', password = ''-'', role = ROLES_MANAGER\<rparr>"

definition ex_admin :: user where
  "ex_admin = \<lparr>user_id = 1, username = ''admin'', password = ''-'', role = ROLES_ADMIN\<rparr>"

definition ex_defaults :: trip where
  "ex_defaults =
     \<lparr>id_col = 0, tripId = [], vehicleNumber = [], vehicleType = ''OWN'', loadingDate = 0,
      status = TRIP_STATUS_PENDING, partyName = Null, partyFreight = Null, partyAdvance = Null,
      partyBalance = Null, motorOwnerName = Null, motorOwnerBhada = Null,
      motorOwnerAdvance = Null, motorOwnerBalance = Null\<rparr>"

definition ex_empty_table :: trips_table where
  "ex_empty_table = \<lparr>rows = [], serial = 1, defaults = ex_defaults\<rparr>"

text \<open>
  A market trip as the create handler stores it: hire 100, owner advance 30, freight 500,
  party advance 200.
\<close>

definition ex_trip :: trip where
  "ex_trip =
     \<lparr>id_col = 1, tripId = ''2026_1'', vehicleNumber = ''MH12AB1234'', vehicleType = ''MARKET'',
      loadingDate = 20, status = TRIP_STATUS_PENDING, partyName = Str ''Acme'',
      partyFreight = Str ''500'', partyAdvance = Str ''200'', partyBalance = Str ''300'',
      motorOwnerName = Str ''Singh'', motorOwnerBhada = Str ''100'',
      motorOwnerAdvance = Str ''30'', motorOwnerBalance = Str ''70''\<rparr>"

definition ex_table :: trips_table where
  "ex_table = \<lparr>rows = [ex_trip], serial = 2, defaults = ex_defaults\<rparr>"

definition ex_settled_table :: trips_table where
  "ex_settled_table =
     \<lparr>rows = [ex_trip\<lparr>status := TRIP_STATUS_SETTLED\<rparr>], serial = 2, defaults = ex_defaults\<rparr>"

text \<open>Three trips: pending (loaded on day 20), settled (day 30) and completed (day 10).\<close>

definition ex_trip2 :: trip where
  "ex_trip2 =
     ex_trip\<lparr>id_col := 2, tripId := ''2026_2'', loadingDate := 30, status := TRIP_STATUS_SETTLED\<rparr>"

definition ex_trip3 :: trip where
  "ex_trip3 =
     ex_trip\<lparr>id_col := 3, tripId := ''2026_3'', vehicleType := ''OWN'', loadingDate := 10,
       status := TRIP_STATUS_COMPLETED, motorOwnerName := Null\<rparr>"

definition ex_three_table :: trips_table where
  "ex_three_table = \<lparr>rows = [ex_trip, ex_trip2, ex_trip3], serial = 4, defaults = ex_defaults\<rparr>"

definition settled_filter :: "bool \<Rightarrow> trip_filters" where
  "settled_filter b =
     \<lparr>flt_vehicleNumber = None, flt_tripId = None, flt_loadedAfter = None, flt_settled = Some b\<rparr>"

text \<open>A market trip without an owner name, and a table with two named owners' trips,
  one unnamed and one trip on an own vehicle.\<close>

definition ex_trip4 :: trip where
  "ex_trip4 =
     ex_trip\<lparr>id_col := 4, tripId := ''2026_4'', motorOwnerName := Null,
       motorOwnerBhada := Str ''50'', motorOwnerAdvance := Null, motorOwnerBalance := Str ''50''\<rparr>"

definition ex_owner_table :: trips_table where
  "ex_owner_table =
     \<lparr>rows = [ex_trip, ex_trip3, ex_trip4, ex_trip2], serial = 5, defaults = ex_defaults\<rparr>"

text \<open>
  The payload that creates \<open>ex_trip\<close> in the empty table; the balances the caller sends
  along are not the ones stored.
\<close>

definition ex_payload :: insert_trip where
  "ex_payload =
     \<lparr>in_vehicleNumber = Some ''MH12AB1234'', in_vehicleType = Some ''MARKET'',
      in_loadingDate = Some 20, in_status = None, in_partyName = Str ''Acme'',
      in_partyFreight = Str ''500'', in_partyAdvance = Str ''200'', in_partyBalance = Str ''999'',
      in_motorOwnerName = Str ''Singh'', in_motorOwnerBhada = Str ''100'',
      in_motorOwnerAdvance = Str ''30'', in_motorOwnerBalance = Str ''999''\<rparr>"


text \<open>
  A stand-in for the key derivation (the bytes of password and salt, cut or padded to the
  length asked for), a salt, and a users table whose second account was registered with the
  password \<^verbatim>\<open>secret\<close>.
\<close>

definition ex_scrypt :: "string \<Rightarrow> string \<Rightarrow> nat \<Rightarrow> buffer" where
  "ex_scrypt pw salt keylen = take keylen (map (\<lambda>c. of_nat (of_char c)) (pw @ salt) @ replicate keylen 0)"

definition ex_salt :: buffer where
  "ex_salt = [7, 200, 33, 18, 254, 0, 91, 160, 3, 77, 129, 16, 255, 42, 64, 5]"

definition ex_registered :: user where
  "ex_registered =
     \<lparr>user_id = 2, username = ''ravi'', password = hashPassword ex_scrypt ex_salt ''secret'',
      role = ROLES_MANAGER\<rparr>"

definition ex_users :: "user list" where
  "ex_users = [ex_admin, ex_registered]"
section \<open>Decimal text and numbers\<close>

text \<open>Printing a number and reading the text back gives the number.\<close>

lemma digit_of_digit_char: "n < 10 \<Longrightarrow> digit_of (digit_char n) = Some n"
  by (simp add: digit_char_def digit_of_def)

lemma digits_value_append:
  "digits_value (xs @ ys) acc =
     (case digits_value xs acc of None \<Rightarrow> None | Some a \<Rightarrow> digits_value ys a)"
  by (induction xs arbitrary: acc) (auto split: option.splits)

lemma digits_value_show_nat: "digits_value (show_nat n) 0 = Some n"
proof (induction n rule: show_nat.induct)
  case (1 n)
  show ?case
  proof (cases "n < 10")
    case True
    then show ?thesis
      by (simp add: show_nat.simps [of n] digit_of_digit_char)
  next
    case False
    then have "digits_value (show_nat (n div 10)) 0 = Some (n div 10)"
      using "1.IH" by simp
    then show ?thesis
      using False
      by (simp add: show_nat.simps [of n] digits_value_append digit_of_digit_char)
  qed
qed

lemma show_nat_inj: "show_nat m = show_nat n \<Longrightarrow> m = n"
  by (metis digits_value_show_nat option.inject)

lemma show_nat_not_Nil: "show_nat n \<noteq> []"
  by (subst show_nat.simps) simp

lemma show_nat_hd: "show_nat n = c # cs \<Longrightarrow> c \<noteq> CHR ''-'' \<and> c \<noteq> CHR ''+''"
proof -
  assume a: "show_nat n = c # cs"
  have "digits_value (c # cs) 0 = Some n"
    using digits_value_show_nat [of n] a by simp
  then have "digit_of c \<noteq> None"
    by (auto split: option.splits)
  then show ?thesis
    by (auto simp: digit_of_def)
qed

lemma StringToNumber_show_nat: "StringToNumber (show_nat n) = Fin (int n)"
proof (cases "show_nat n")
  case Nil
  then show ?thesis using show_nat_not_Nil by simp
next
  case (Cons c cs)
  then show ?thesis
    using show_nat_hd [OF Cons] digits_value_show_nat [of n]
    by (simp add: StringToNumber_def)
qed

lemma Number_toString: "Number (Str (toString x)) = x"
proof (cases x)
  case NaN
  then show ?thesis
    by (simp add: StringToNumber_def digit_of_def)
next
  case (Fin i)
  show ?thesis
  proof (cases "i < 0")
    case True
    then show ?thesis
      using Fin digits_value_show_nat [of "nat (- i)"] show_nat_not_Nil [of "nat (- i)"]
      by (simp add: StringToNumber_def)
  next
    case False
    then show ?thesis
      using Fin by (simp add: StringToNumber_show_nat)
  qed
qed

section \<open>Facts about the Trip Ledger\<close>

lemma id_col_set_columns [simp]: "id_col (set_columns p t) = id_col t"
  by (simp add: set_columns_def)

lemma tripId_set_columns [simp]: "tripId (set_columns p t) = tripId t"
  by (simp add: set_columns_def)

lemma find_returning:
  "find (\<lambda>t. id_col t = i) ts = Some t \<Longrightarrow>
   filter (\<lambda>r. id_col r = i) (map (\<lambda>r. if id_col r = i then set_columns p r else r) ts)
     = set_columns p t #
       filter (\<lambda>r. id_col r = i) (map (\<lambda>r. if id_col r = i then set_columns p r else r)
         (tl (dropWhile (\<lambda>r. id_col r \<noteq> i) ts)))"
  by (induction ts) (auto split: if_splits)

lemma find_absent_filter:
  "find (\<lambda>t. id_col t = i) ts = None \<Longrightarrow>
   map (\<lambda>r. if id_col r = i then set_columns p r else r) ts = ts \<and>
   filter (\<lambda>r. id_col r = i) ts = []"
  by (induction ts) (auto split: if_splits)

lemma updateTrip_no_values: "no_values p \<Longrightarrow> updateTrip i p tbl = (Inl NoValuesToSet, tbl)"
  by (simp add: updateTrip_def)

lemma updateTrip_existing:
  assumes "getTrip i tbl = Some t" and "\<not> no_values p"
  shows "updateTrip i p tbl =
           (Inr (Some (set_columns p t)),
            tbl\<lparr>rows := map (\<lambda>r. if id_col r = i then set_columns p r else r) (rows tbl)\<rparr>)"
  using find_returning [of i "rows tbl" t p] assms
  by (simp add: updateTrip_def getTrip_def Let_def)

lemma updateTrip_absent:
  assumes "getTrip i tbl = None" and "\<not> no_values p"
  shows "updateTrip i p tbl = (Inr None, tbl)"
  using find_absent_filter [of i "rows tbl" p] assms
  by (simp add: updateTrip_def getTrip_def Let_def)

lemma find_after_update:
  "find (\<lambda>t. id_col t = i) ts = Some t \<Longrightarrow>
   find (\<lambda>t. id_col t = i) (map (\<lambda>r. if id_col r = i then set_columns p r else r) ts)
     = Some (set_columns p t)"
  by (induction ts) (auto split: if_splits)

lemma getTrip_after_updateTrip:
  assumes "getTrip i tbl = Some t" and "\<not> no_values p"
  shows "getTrip i (snd (updateTrip i p tbl)) = Some (set_columns p t)"
  using assms find_after_update [of i "rows tbl" t p]
  by (simp add: updateTrip_existing getTrip_def)

lemma rows_other_ids:
  "filter (\<lambda>r. id_col r \<noteq> i) (map (\<lambda>r. if id_col r = i then set_columns p r else r) ts) =
   filter (\<lambda>r. id_col r \<noteq> i) ts"
  by (induction ts) auto

section \<open>What the update handler hands to the ledger\<close>

lemma status_driver_row [simp]: "status (driver_row t) = status t"
  by (simp add: driver_row_def)

lemma driver_value_defined [simp]: "driver_value v \<noteq> Undefined"
  by (simp add: driver_value_def)

lemma calcBalance_defined [simp]: "calcBalance a b \<noteq> Undefined"
  by (simp add: calcBalance_def)

text \<open>The handler always supplies the two balances, so \<^verbatim>\<open>set\<close> never finds its object empty.\<close>

lemma update_values_balances:
  "in_motorOwnerBalance (update_values input (driver_row t)) \<noteq> Undefined \<and>
   in_partyBalance (update_values input (driver_row t)) \<noteq> Undefined"
  by (simp add: update_values_def Let_def driver_row_def)

lemma update_values_not_empty: "\<not> no_values (update_values input (driver_row t))"
  using update_values_balances [of input t] by (simp add: no_values_def)

text \<open>The answer to an update that passes both policy checks.\<close>

lemma updateTripHandler_accepts:
  assumes "getTrip i tbl = Some t"
    and "role u = ROLES_ADMIN \<or>
         status t \<noteq> TRIP_STATUS_COMPLETED \<and> status t \<noteq> TRIP_STATUS_SETTLED \<and>
         in_motorOwnerBhada input = Undefined"
  shows "updateTripHandler (Some u) i (Inr input) tbl =
           ((200, TripJson (Some (set_columns (update_values input (driver_row t)) t))),
            tbl\<lparr>rows := map (\<lambda>r. if id_col r = i
                                 then set_columns (update_values input (driver_row t)) r else r)
                          (rows tbl)\<rparr>)"
  using assms
    updateTrip_existing [OF assms(1) update_values_not_empty, of input t]
  by (auto simp: updateTripHandler_def Let_def)

lemma getTrip_after_accepted_update:
  assumes "getTrip i tbl = Some t"
  shows "getTrip i (tbl\<lparr>rows := map (\<lambda>r. if id_col r = i then set_columns p r else r) (rows tbl)\<rparr>)
           = Some (set_columns p t)"
  using assms find_after_update [of i "rows tbl" t p] by (simp add: getTrip_def)

section \<open>The authorization policy of the update handler\<close>

text \<open>
  C3: an update by an authenticated caller whose role is not ADMIN, with a payload that
  passed validation, on a trip whose stored status is COMPLETED or SETTLED is answered
  with 403 whatever the payload holds, and the table is left as it was. (The handler
  answers 400 to an invalid payload and 404 to an unknown identifier before it looks at
  the status.)
\<close>

theorem update_completed_or_settled_forbidden:
  assumes "role u \<noteq> ROLES_ADMIN"
    and "getTrip i tbl = Some t"
    and "status t = TRIP_STATUS_COMPLETED \<or> status t = TRIP_STATUS_SETTLED"
  shows "updateTripHandler (Some u) i (Inr input) tbl =
           ((403, MessageJson ''Managers cannot edit completed or settled trips.''), tbl)"
  using assms by (auto simp: updateTripHandler_def)

theorem update_completed_or_settled_forbidden_witness:
  "role ex_manager \<noteq> ROLES_ADMIN \<and>
   getTrip 1 ex_settled_table = Some (ex_trip\<lparr>status := TRIP_STATUS_SETTLED\<rparr>) \<and>
   updateTripHandler (Some ex_manager) 1 (Inr (no_fields\<lparr>in_partyName := Str ''Bharat''\<rparr>))
       ex_settled_table =
     ((403, MessageJson ''Managers cannot edit completed or settled trips.''), ex_settled_table)"
proof -
  have r: "role ex_manager \<noteq> ROLES_ADMIN"
    by (simp add: ex_manager_def ROLES_MANAGER_def ROLES_ADMIN_def)
  have g: "getTrip 1 ex_settled_table = Some (ex_trip\<lparr>status := TRIP_STATUS_SETTLED\<rparr>)"
    by (simp add: getTrip_def ex_settled_table_def ex_trip_def)
  have s: "status (ex_trip\<lparr>status := TRIP_STATUS_SETTLED\<rparr>) = TRIP_STATUS_COMPLETED \<or>
           status (ex_trip\<lparr>status := TRIP_STATUS_SETTLED\<rparr>) = TRIP_STATUS_SETTLED"
    by simp
  show ?thesis
    using r g update_completed_or_settled_forbidden [OF r g s] by simp
qed

text \<open>
  C4: when the payload of an update carries a \<^verbatim>\<open>motorOwnerBhada\<close> field (the handler's own
  test, \<^verbatim>\<open>!== undefined\<close>), an authenticated caller whose role is not ADMIN gets 403 and
  the table is left as it was, whatever the status of the trip: the status check answers
  for a COMPLETED or SETTLED trip, the bhada check for every other. An ADMIN sending the
  same payload for the same trip gets 200 with the updated row, which is the row then
  stored under the identifier and carries the new bhada. (The trip exists and the payload
  passed validation: 404 and 400 come first.)
\<close>

theorem manager_bhada_forbidden_admin_succeeds:
  assumes "role m \<noteq> ROLES_ADMIN"
    and "role a = ROLES_ADMIN"
    and "getTrip i tbl = Some t"
    and "in_motorOwnerBhada input \<noteq> Undefined"
  shows "updateTripHandler (Some m) i (Inr input) tbl =
           ((403,
             MessageJson
               (if status t = TRIP_STATUS_COMPLETED \<or> status t = TRIP_STATUS_SETTLED
                then ''Managers cannot edit completed or settled trips.''
                else ''Managers cannot edit Bhada.'')),
            tbl) \<and>
         (\<exists>t' tbl'.
            updateTripHandler (Some a) i (Inr input) tbl = ((200, TripJson (Some t')), tbl') \<and>
            getTrip i tbl' = Some t' \<and>
            motorOwnerBhada t' = in_motorOwnerBhada input)"
proof
  show "updateTripHandler (Some m) i (Inr input) tbl =
           ((403,
             MessageJson
               (if status t = TRIP_STATUS_COMPLETED \<or> status t = TRIP_STATUS_SETTLED
                then ''Managers cannot edit completed or settled trips.''
                else ''Managers cannot edit Bhada.'')),
            tbl)"
    using assms(1,3,4) by (simp add: updateTripHandler_def)
next
  let ?p = "update_values input (driver_row t)"
  let ?tbl = "tbl\<lparr>rows := map (\<lambda>r. if id_col r = i then set_columns ?p r else r) (rows tbl)\<rparr>"
  have h: "updateTripHandler (Some a) i (Inr input) tbl =
             ((200, TripJson (Some (set_columns ?p t))), ?tbl)"
    using assms(2) by (intro updateTripHandler_accepts [OF assms(3)]) simp
  have g: "getTrip i ?tbl = Some (set_columns ?p t)"
    by (rule getTrip_after_accepted_update [OF assms(3)])
  have b: "motorOwnerBhada (set_columns ?p t) = in_motorOwnerBhada input"
    using assms(4) by (simp add: set_columns_def jcolumn_def update_values_def Let_def)
  from h g b show "\<exists>t' tbl'.
            updateTripHandler (Some a) i (Inr input) tbl = ((200, TripJson (Some t')), tbl') \<and>
            getTrip i tbl' = Some t' \<and>
            motorOwnerBhada t' = in_motorOwnerBhada input"
    by blast
qed

theorem manager_bhada_forbidden_admin_succeeds_witness:
  "role ex_manager \<noteq> ROLES_ADMIN \<and> role ex_admin = ROLES_ADMIN \<and>
   getTrip 1 ex_table = Some ex_trip \<and>
   updateTripHandler (Some ex_manager) 1 (Inr (no_fields\<lparr>in_motorOwnerBhada := Str ''120''\<rparr>))
       ex_table =
     ((403, MessageJson ''Managers cannot edit Bhada.''), ex_table) \<and>
   (\<exists>t' tbl'.
      updateTripHandler (Some ex_admin) 1 (Inr (no_fields\<lparr>in_motorOwnerBhada := Str ''120''\<rparr>))
          ex_table =
        ((200, TripJson (Some t')), tbl') \<and>
      getTrip 1 tbl' = Some t' \<and> motorOwnerBhada t' = Str ''120'')"
proof -
  have r: "role ex_manager \<noteq> ROLES_ADMIN"
    by (simp add: ex_manager_def ROLES_MANAGER_def ROLES_ADMIN_def)
  have a: "role ex_admin = ROLES_ADMIN"
    by (simp add: ex_admin_def)
  have g: "getTrip 1 ex_table = Some ex_trip"
    by (simp add: getTrip_def ex_table_def ex_trip_def)
  have b: "in_motorOwnerBhada (no_fields\<lparr>in_motorOwnerBhada := Str ''120''\<rparr>) \<noteq> Undefined"
    by simp
  have s: "\<not> (status ex_trip = TRIP_STATUS_COMPLETED \<or> status ex_trip = TRIP_STATUS_SETTLED)"
    by (simp add: ex_trip_def TRIP_STATUS_PENDING_def TRIP_STATUS_COMPLETED_def
        TRIP_STATUS_SETTLED_def)
  show ?thesis
    using r a g s manager_bhada_forbidden_admin_succeeds [OF r a g b] by simp
qed

section \<open>The create handler\<close>

lemma conditions_None: "conditions None = []"
  by (simp add: conditions_def opt_field_def)

lemma length_getTrips_None: "length (getTrips None tbl) = length (rows tbl)"
  by (simp add: getTrips_def orderBy_desc_def conditions_None)

lemma createTripHandler_accepts:
  "createTripHandler (Some u) year (Inr input) tbl =
     (let newTrip =
            set_columns
              (input\<lparr>in_motorOwnerBalance :=
                        calcBalance (in_motorOwnerBhada input) (in_motorOwnerAdvance input),
                      in_partyBalance := calcBalance (in_partyFreight input) (in_partyAdvance input)\<rparr>)
              ((defaults tbl)\<lparr>id_col := serial tbl,
                 tripId := show_nat year @ ''_'' @ show_nat (length (rows tbl) + 1)\<rparr>)
      in ((201, TripJson (Some newTrip)),
          tbl\<lparr>rows := rows tbl @ [newTrip], serial := Suc (serial tbl)\<rparr>))"
  by (simp add: createTripHandler_def createTrip_def Let_def length_getTrips_None)

text \<open>
  C10: the create handler checks authentication and nothing else. For every authenticated
  caller, a MANAGER included, a validated payload that carries a \<^verbatim>\<open>motorOwnerBhada\<close> is
  answered with 201, the new row is appended to the table and holds the bhada as supplied;
  the outcome is the same for any other authenticated caller (no role is read, and no
  status of a stored trip), while a request without a session gets 401.
\<close>

theorem create_checks_authentication_only:
  assumes "in_motorOwnerBhada input \<noteq> Undefined"
  shows "\<exists>newTrip.
           createTripHandler (Some u) year (Inr input) tbl =
             ((201, TripJson (Some newTrip)),
              tbl\<lparr>rows := rows tbl @ [newTrip], serial := Suc (serial tbl)\<rparr>) \<and>
           motorOwnerBhada newTrip = in_motorOwnerBhada input \<and>
           createTripHandler (Some u') year (Inr input) tbl =
             createTripHandler (Some u) year (Inr input) tbl \<and>
           createTripHandler None year (Inr input) tbl = ((401, StatusText), tbl)"
proof -
  have "createTripHandler None year (Inr input) tbl = ((401, StatusText), tbl)"
    by (simp add: createTripHandler_def)
  then show ?thesis
    using assms
    by (simp add: createTripHandler_accepts Let_def set_columns_def jcolumn_def)
qed

theorem create_checks_authentication_only_witness:
  "in_motorOwnerBhada (no_fields\<lparr>in_motorOwnerBhada := Str ''100''\<rparr>) \<noteq> Undefined \<and>
   role ex_manager = ROLES_MANAGER \<and>
   (\<exists>newTrip.
      createTripHandler (Some ex_manager) 2026
          (Inr (no_fields\<lparr>in_motorOwnerBhada := Str ''100''\<rparr>)) ex_settled_table =
        ((201, TripJson (Some newTrip)),
         ex_settled_table\<lparr>rows := rows ex_settled_table @ [newTrip],
           serial := Suc (serial ex_settled_table)\<rparr>) \<and>
      motorOwnerBhada newTrip = Str ''100'' \<and>
      createTripHandler (Some ex_admin) 2026
          (Inr (no_fields\<lparr>in_motorOwnerBhada := Str ''100''\<rparr>)) ex_settled_table =
        createTripHandler (Some ex_manager) 2026
          (Inr (no_fields\<lparr>in_motorOwnerBhada := Str ''100''\<rparr>)) ex_settled_table \<and>
      createTripHandler None 2026
          (Inr (no_fields\<lparr>in_motorOwnerBhada := Str ''100''\<rparr>)) ex_settled_table =
        ((401, StatusText), ex_settled_table))"
proof -
  have b: "in_motorOwnerBhada (no_fields\<lparr>in_motorOwnerBhada := Str ''100''\<rparr>) \<noteq> Undefined"
    by simp
  have r: "role ex_manager = ROLES_MANAGER"
    by (simp add: ex_manager_def)
  show ?thesis
    using b r
      create_checks_authentication_only [OF b, of ex_manager 2026 ex_settled_table ex_admin]
    by simp
qed

text \<open>
  C6: the code of a created trip is the year, an underscore and the number of stored trips
  plus one; so two creations in the same year, one after the other with no other write
  between them, get the codes \<open>year_n\<close> and \<open>year_(n+1)\<close>, and these differ.
\<close>

theorem sequential_trip_codes:
  "\<exists>t1 tbl1 t2 tbl2.
     createTripHandler (Some u1) year (Inr a) tbl = ((201, TripJson (Some t1)), tbl1) \<and>
     createTripHandler (Some u2) year (Inr b) tbl1 = ((201, TripJson (Some t2)), tbl2) \<and>
     tripId t1 = show_nat year @ ''_'' @ show_nat (length (rows tbl) + 1) \<and>
     tripId t2 = show_nat year @ ''_'' @ show_nat (length (rows tbl) + 1 + 1) \<and>
     tripId t1 \<noteq> tripId t2"
proof -
  have "show_nat (Suc (length (rows tbl))) \<noteq> show_nat (Suc (Suc (length (rows tbl))))"
    using show_nat_inj by fastforce
  then show ?thesis
    by (simp add: createTripHandler_accepts Let_def)
qed

theorem sequential_trip_codes_witness:
  "\<exists>t1 tbl1 t2 tbl2.
     createTripHandler (Some ex_manager) 2026 (Inr no_fields) ex_table =
       ((201, TripJson (Some t1)), tbl1) \<and>
     createTripHandler (Some ex_admin) 2026 (Inr no_fields) tbl1 =
       ((201, TripJson (Some t2)), tbl2) \<and>
     tripId t1 = ''2026_2'' \<and> tripId t2 = ''2026_3''"
proof -
  have y: "show_nat 2026 = ''2026''" by code_simp
  have n2: "show_nat (length (rows ex_table) + 1) = ''2''"
    by code_simp
  have n3: "show_nat (length (rows ex_table) + 1 + 1) = ''3''"
    by code_simp
  show ?thesis
    using sequential_trip_codes [of ex_manager 2026 no_fields ex_table ex_admin no_fields]
    unfolding y n2 n3 by auto
qed

section \<open>Listing trips\<close>

lemma like_percent: "like ''%'' s"
  by (induction s) auto

lemma like_percent_percent: "like ''%%'' s"
  using like_percent [of s] by (cases s) auto

lemma ilike_any: "ilike s (''%'' @ [] @ ''%'')"
  using like_percent_percent [of "map lower_char s"]
  by (simp add: ilike_def lower_char_def)

lemma conditions_Some:
  "list_all (\<lambda>c. c t) (conditions (Some f)) =
     ((case flt_vehicleNumber f of
         None \<Rightarrow> True
       | Some v \<Rightarrow> ilike (vehicleNumber t) (''%'' @ v @ ''%'')) \<and>
      (case flt_tripId f of
         None \<Rightarrow> True
       | Some v \<Rightarrow> ilike (tripId t) (''%'' @ v @ ''%'')) \<and>
      (case flt_loadedAfter f of None \<Rightarrow> True | Some d \<Rightarrow> d \<le> loadingDate t) \<and>
      (case flt_settled f of
         None \<Rightarrow> True
       | Some s \<Rightarrow> if s then status t = TRIP_STATUS_SETTLED else status t \<noteq> TRIP_STATUS_SETTLED))"
proof -
  have vn: "list_all (\<lambda>c. c t)
              (case flt_vehicleNumber f of
                 None \<Rightarrow> []
               | Some v \<Rightarrow> if v = [] then [] else [\<lambda>t. ilike (vehicleNumber t) (''%'' @ v @ ''%'')])
            = (case flt_vehicleNumber f of
                 None \<Rightarrow> True
               | Some v \<Rightarrow> ilike (vehicleNumber t) (''%'' @ v @ ''%''))"
    using ilike_any [of "vehicleNumber t"] by (simp split: option.splits)
  have ti: "list_all (\<lambda>c. c t)
              (case flt_tripId f of
                 None \<Rightarrow> []
               | Some v \<Rightarrow> if v = [] then [] else [\<lambda>t. ilike (tripId t) (''%'' @ v @ ''%'')])
            = (case flt_tripId f of
                 None \<Rightarrow> True
               | Some v \<Rightarrow> ilike (tripId t) (''%'' @ v @ ''%''))"
    using ilike_any [of "tripId t"] by (simp split: option.splits)
  have la: "list_all (\<lambda>c. c t)
              (case flt_loadedAfter f of None \<Rightarrow> [] | Some d \<Rightarrow> [\<lambda>t. d \<le> loadingDate t])
            = (case flt_loadedAfter f of None \<Rightarrow> True | Some d \<Rightarrow> d \<le> loadingDate t)"
    by (simp split: option.splits)
  have st: "list_all (\<lambda>c. c t)
              (if flt_settled f = Some True then [\<lambda>t. status t = TRIP_STATUS_SETTLED]
               else if flt_settled f = Some False then [\<lambda>t. status t \<noteq> TRIP_STATUS_SETTLED]
               else [])
            = (case flt_settled f of
                 None \<Rightarrow> True
               | Some s \<Rightarrow>
                   if s then status t = TRIP_STATUS_SETTLED else status t \<noteq> TRIP_STATUS_SETTLED)"
    by (simp split: option.splits)
  show ?thesis
    unfolding conditions_def opt_field_def option.case list_all_append vn ti la st ..
qed

lemma sorted_orderBy_desc: "sorted_wrt (\<lambda>a b. k b \<le> k a) (orderBy_desc k ts)"
proof -
  have "sorted (map (\<lambda>t. - k t) (sort_key (\<lambda>t. - k t) ts))"
    by (rule sorted_sort_key)
  then show ?thesis
    by (simp add: orderBy_desc_def sorted_wrt_map)
qed

lemma mset_orderBy_desc: "mset (orderBy_desc k ts) = mset ts"
  by (simp add: orderBy_desc_def)

text \<open>
  C5: with a filter object, \<^verbatim>\<open>getTrips\<close> returns exactly the stored trips (each once) that
  satisfy all the supplied filters together: the vehicle-number pattern, the trip-code
  pattern, the loading date bound, and the settlement filter, where \<^verbatim>\<open>true\<close> keeps the trips
  whose status is SETTLED, \<^verbatim>\<open>false\<close> those whose status is not SETTLED, and an absent
  filter keeps every status. Without filters it returns every trip. The result is always
  ordered by loading date, most recent first.
\<close>

theorem getTrips_returns_exactly_the_matching_trips_newest_first:
  "mset (getTrips (Some f) tbl) =
     filter_mset
       (\<lambda>t. (case flt_vehicleNumber f of
                None \<Rightarrow> True
              | Some v \<Rightarrow> ilike (vehicleNumber t) (''%'' @ v @ ''%'')) \<and>
             (case flt_tripId f of
                None \<Rightarrow> True
              | Some v \<Rightarrow> ilike (tripId t) (''%'' @ v @ ''%'')) \<and>
             (case flt_loadedAfter f of None \<Rightarrow> True | Some d \<Rightarrow> d \<le> loadingDate t) \<and>
             (case flt_settled f of
                None \<Rightarrow> True
              | Some s \<Rightarrow>
                  if s then status t = TRIP_STATUS_SETTLED
                  else status t \<noteq> TRIP_STATUS_SETTLED))
       (mset (rows tbl)) \<and>
   mset (getTrips None tbl) = mset (rows tbl) \<and>
   sorted_wrt (\<lambda>a b. loadingDate b \<le> loadingDate a) (getTrips filters tbl)"
proof (intro conjI)
  show "sorted_wrt (\<lambda>a b. loadingDate b \<le> loadingDate a) (getTrips filters tbl)"
    by (simp add: getTrips_def sorted_orderBy_desc)
  show "mset (getTrips None tbl) = mset (rows tbl)"
    by (simp add: getTrips_def mset_orderBy_desc conditions_None)
  show "mset (getTrips (Some f) tbl) =
     filter_mset
       (\<lambda>t. (case flt_vehicleNumber f of
                None \<Rightarrow> True
              | Some v \<Rightarrow> ilike (vehicleNumber t) (''%'' @ v @ ''%'')) \<and>
             (case flt_tripId f of
                None \<Rightarrow> True
              | Some v \<Rightarrow> ilike (tripId t) (''%'' @ v @ ''%'')) \<and>
             (case flt_loadedAfter f of None \<Rightarrow> True | Some d \<Rightarrow> d \<le> loadingDate t) \<and>
             (case flt_settled f of
                None \<Rightarrow> True
              | Some s \<Rightarrow>
                  if s then status t = TRIP_STATUS_SETTLED
                  else status t \<noteq> TRIP_STATUS_SETTLED))
       (mset (rows tbl))"
    unfolding getTrips_def mset_orderBy_desc mset_filter conditions_Some ..
qed

theorem getTrips_returns_exactly_the_matching_trips_newest_first_witness:
  "mset (getTrips (Some (settled_filter True)) ex_three_table) = {#ex_trip2#} \<and>
   mset (getTrips (Some (settled_filter False)) ex_three_table) = {#ex_trip, ex_trip3#} \<and>
   mset (getTrips None ex_three_table) = {#ex_trip, ex_trip2, ex_trip3#} \<and>
   sorted_wrt (\<lambda>a b. loadingDate b \<le> loadingDate a) (getTrips None ex_three_table) \<and>
   getTrips None ex_three_table = [ex_trip2, ex_trip, ex_trip3]"
proof -
  have st: "status ex_trip \<noteq> TRIP_STATUS_SETTLED" "status ex_trip2 = TRIP_STATUS_SETTLED"
    "status ex_trip3 \<noteq> TRIP_STATUS_SETTLED"
    by (simp_all add: ex_trip_def ex_trip2_def ex_trip3_def TRIP_STATUS_PENDING_def
        TRIP_STATUS_COMPLETED_def TRIP_STATUS_SETTLED_def)
  have ord: "getTrips None ex_three_table = [ex_trip2, ex_trip, ex_trip3]"
    by (simp add: getTrips_def conditions_None orderBy_desc_def ex_three_table_def ex_trip_def
        ex_trip2_def ex_trip3_def)
  show ?thesis
    using st ord
      getTrips_returns_exactly_the_matching_trips_newest_first
        [of "settled_filter True" ex_three_table None]
      getTrips_returns_exactly_the_matching_trips_newest_first
        [of "settled_filter False" ex_three_table None]
    by (simp add: settled_filter_def ex_three_table_def)
qed

section \<open>Updating a trip in the ledger\<close>

text \<open>
  C8: updating a trip merges only the supplied fields into the existing record, and an
  unknown identifier ends in NotFound. When no trip has the identifier, the update
  operation answers 404 and the table is left as it was: the handler looks the trip up
  before it calls \<^verbatim>\<open>updateTrip\<close>. When a trip has it, \<^verbatim>\<open>updateTrip\<close> with a payload that supplies
  at least one field, its amounts written as the numeric columns return them, returns the
  updated row, which is then the row stored under the identifier; each field holds the
  supplied value where the payload supplies one and the old value otherwise, the \<^verbatim>\<open>id\<close> and
  the trip code are kept, and the rows with other identifiers are as before. A payload that
  supplies nothing is refused by \<^verbatim>\<open>set\<close> with nothing written; the handler never sends one,
  since it always adds the two balances.
\<close>

theorem update_merges_supplied_fields_or_answers_not_found:
  "(case getTrip i tbl of
      None \<Rightarrow> updateTripHandler (Some u) i (Inr p) tbl = ((404, StatusText), tbl)
    | Some t \<Rightarrow>
        \<not> no_values (update_values p (driver_row t)) \<and>
        (if no_values p then updateTrip i p tbl = (Inl NoValuesToSet, tbl)
         else
           column_amounts p \<longrightarrow>
           (\<exists>t' rows'.
              updateTrip i p tbl = (Inr (Some t'), tbl\<lparr>rows := rows'\<rparr>) \<and>
              getTrip i (tbl\<lparr>rows := rows'\<rparr>) = Some t' \<and>
              length rows' = length (rows tbl) \<and>
              filter (\<lambda>r. id_col r \<noteq> i) rows' = filter (\<lambda>r. id_col r \<noteq> i) (rows tbl) \<and>
              id_col t' = id_col t \<and>
              tripId t' = tripId t \<and>
              vehicleNumber t' =
                (case in_vehicleNumber p of None \<Rightarrow> vehicleNumber t | Some v \<Rightarrow> v) \<and>
              vehicleType t' = (case in_vehicleType p of None \<Rightarrow> vehicleType t | Some v \<Rightarrow> v) \<and>
              loadingDate t' = (case in_loadingDate p of None \<Rightarrow> loadingDate t | Some v \<Rightarrow> v) \<and>
              status t' = (case in_status p of None \<Rightarrow> status t | Some v \<Rightarrow> v) \<and>
              partyName t' = (if in_partyName p = Undefined then partyName t else in_partyName p) \<and>
              partyFreight t' =
                (if in_partyFreight p = Undefined then partyFreight t else in_partyFreight p) \<and>
              partyAdvance t' =
                (if in_partyAdvance p = Undefined then partyAdvance t else in_partyAdvance p) \<and>
              partyBalance t' =
                (if in_partyBalance p = Undefined then partyBalance t else in_partyBalance p) \<and>
              motorOwnerName t' =
                (if in_motorOwnerName p = Undefined then motorOwnerName t
                 else in_motorOwnerName p) \<and>
              motorOwnerBhada t' =
                (if in_motorOwnerBhada p = Undefined then motorOwnerBhada t
                 else in_motorOwnerBhada p) \<and>
              motorOwnerAdvance t' =
                (if in_motorOwnerAdvance p = Undefined then motorOwnerAdvance t
                 else in_motorOwnerAdvance p) \<and>
              motorOwnerBalance t' =
                (if in_motorOwnerBalance p = Undefined then motorOwnerBalance t
                 else in_motorOwnerBalance p))))"
proof (cases "getTrip i tbl")
  case None
  then show ?thesis
    by (simp add: updateTripHandler_def)
next
  case (Some t)
  show ?thesis
  proof (cases "no_values p")
    case True
    then show ?thesis
      unfolding Some option.case
      by (simp add: updateTrip_no_values update_values_not_empty)
  next
    case False
    let ?rows = "map (\<lambda>r. if id_col r = i then set_columns p r else r) (rows tbl)"
    have u: "updateTrip i p tbl = (Inr (Some (set_columns p t)), tbl\<lparr>rows := ?rows\<rparr>)"
      by (rule updateTrip_existing [OF Some False])
    have g: "getTrip i (tbl\<lparr>rows := ?rows\<rparr>) = Some (set_columns p t)"
      by (rule getTrip_after_accepted_update [OF Some])
    have f: "vehicleNumber (set_columns p t) =
         (case in_vehicleNumber p of None \<Rightarrow> vehicleNumber t | Some v \<Rightarrow> v)"
      "vehicleType (set_columns p t) =
         (case in_vehicleType p of None \<Rightarrow> vehicleType t | Some v \<Rightarrow> v)"
      "loadingDate (set_columns p t) =
         (case in_loadingDate p of None \<Rightarrow> loadingDate t | Some v \<Rightarrow> v)"
      "status (set_columns p t) = (case in_status p of None \<Rightarrow> status t | Some v \<Rightarrow> v)"
      "partyName (set_columns p t) =
         (if in_partyName p = Undefined then partyName t else in_partyName p)"
      "partyFreight (set_columns p t) =
         (if in_partyFreight p = Undefined then partyFreight t else in_partyFreight p)"
      "partyAdvance (set_columns p t) =
         (if in_partyAdvance p = Undefined then partyAdvance t else in_partyAdvance p)"
      "partyBalance (set_columns p t) =
         (if in_partyBalance p = Undefined then partyBalance t else in_partyBalance p)"
      "motorOwnerName (set_columns p t) =
         (if in_motorOwnerName p = Undefined then motorOwnerName t else in_motorOwnerName p)"
      "motorOwnerBhada (set_columns p t) =
         (if in_motorOwnerBhada p = Undefined then motorOwnerBhada t else in_motorOwnerBhada p)"
      "motorOwnerAdvance (set_columns p t) =
         (if in_motorOwnerAdvance p = Undefined then motorOwnerAdvance t
          else in_motorOwnerAdvance p)"
      "motorOwnerBalance (set_columns p t) =
         (if in_motorOwnerBalance p = Undefined then motorOwnerBalance t
          else in_motorOwnerBalance p)"
      by (simp_all add: set_columns_def column_def jcolumn_def)
    have o: "filter (\<lambda>r. id_col r \<noteq> i) ?rows = filter (\<lambda>r. id_col r \<noteq> i) (rows tbl)"
      by (rule rows_other_ids)
    have l: "length ?rows = length (rows tbl)"
      by simp
    have e: "\<not> no_values (update_values p (driver_row t))"
      by (rule update_values_not_empty)
    show ?thesis
      unfolding Some option.case if_not_P [OF False]
      apply (rule conjI [OF e])
      apply (rule impI)
      apply (rule exI [of _ "set_columns p t"])
      apply (rule exI [of _ ?rows])
      using u g o l f by simp
  qed
qed

theorem update_merges_supplied_fields_or_answers_not_found_witness:
  "getTrip 7 ex_table = None \<and> getTrip 1 ex_table = Some ex_trip \<and>
   \<not> no_values (no_fields\<lparr>in_partyName := Str ''Bharat'', in_partyAdvance := Str ''250''\<rparr>) \<and>
   column_amounts (no_fields\<lparr>in_partyName := Str ''Bharat'', in_partyAdvance := Str ''250''\<rparr>) \<and>
   updateTripHandler (Some ex_admin) 7
       (Inr (no_fields\<lparr>in_partyName := Str ''Bharat'', in_partyAdvance := Str ''250''\<rparr>)) ex_table =
     ((404, StatusText), ex_table) \<and>
   (\<exists>t' rows'.
      updateTrip 1 (no_fields\<lparr>in_partyName := Str ''Bharat'', in_partyAdvance := Str ''250''\<rparr>)
          ex_table =
        (Inr (Some t'), ex_table\<lparr>rows := rows'\<rparr>) \<and>
      getTrip 1 (ex_table\<lparr>rows := rows'\<rparr>) = Some t' \<and>
      partyName t' = Str ''Bharat'' \<and> partyFreight t' = Str ''500'' \<and>
      partyAdvance t' = Str ''250'' \<and> partyBalance t' = Str ''300'' \<and>
      status t' = TRIP_STATUS_PENDING \<and> tripId t' = ''2026_1'')"
proof -
  let ?p = "no_fields\<lparr>in_partyName := Str ''Bharat'', in_partyAdvance := Str ''250''\<rparr>"
  have a: "getTrip 7 ex_table = None"
    by (simp add: getTrip_def ex_table_def ex_trip_def)
  have e: "getTrip 1 ex_table = Some ex_trip"
    by (simp add: getTrip_def ex_table_def ex_trip_def)
  have n: "\<not> no_values ?p"
    by (simp add: no_values_def)
  have c: "column_amounts ?p"
    by code_simp
  have 1: "updateTripHandler (Some ex_admin) 7 (Inr ?p) ex_table = ((404, StatusText), ex_table)"
    using update_merges_supplied_fields_or_answers_not_found
      [where i = 7 and tbl = ex_table and p = ?p and u = ex_admin]
    unfolding a by simp
  have 2: "\<exists>t' rows'.
      updateTrip 1 ?p ex_table = (Inr (Some t'), ex_table\<lparr>rows := rows'\<rparr>) \<and>
      getTrip 1 (ex_table\<lparr>rows := rows'\<rparr>) = Some t' \<and>
      partyName t' = Str ''Bharat'' \<and> partyFreight t' = Str ''500'' \<and>
      partyAdvance t' = Str ''250'' \<and> partyBalance t' = Str ''300'' \<and>
      status t' = TRIP_STATUS_PENDING \<and> tripId t' = ''2026_1''"
    using update_merges_supplied_fields_or_answers_not_found
      [where i = 1 and tbl = ex_table and p = ?p and u = ex_admin]
    unfolding e using n c by (simp add: no_fields_def ex_trip_def) blast
  from a e n c 1 2 show ?thesis
    by blast
qed

section \<open>Motor-owner analytics\<close>

lemma js_add_assoc: "js_add (js_add a b) c = js_add a (js_add b c)"
  by (cases a; cases b; cases c) simp_all

lemma js_add_zero [simp]: "js_add (Fin 0) a = a" "js_add a (Fin 0) = a"
  by (cases a; simp)+

lemma Number_sum_text: "Number (sum_text acc) = acc_num acc"
  by (cases acc) (simp_all add: sum_text_def acc_num_def Number_toString del: Number.simps(4))

lemma acc_num_step:
  "acc_num (sql_sum_step acc v) =
     (if v = Null \<or> v = Undefined then acc_num acc else js_add (acc_num acc) (Number v))"
  by (cases acc) (simp_all add: sql_sum_step_def acc_num_def)

lemma sum_numbers_snoc:
  "sum_numbers (vs @ [v]) =
     (if v = Null \<or> v = Undefined then sum_numbers vs else js_add (sum_numbers vs) (Number v))"
  by (induction vs) (auto simp: js_add_assoc)

lemma aggregate_Nil [simp]: "aggregate [] = group_init"
  by (simp add: aggregate_def)

lemma aggregate_snoc [simp]: "aggregate (ts @ [t]) = group_step t (aggregate ts)"
  by (simp add: aggregate_def)

lemma aggregate_count: "g_count (aggregate ts) = length ts"
  by (induction ts rule: rev_induct) (simp_all add: group_init_def group_step_def)

lemma aggregate_sums:
  "acc_num (g_bhada (aggregate ts)) = sum_numbers (map motorOwnerBhada ts) \<and>
   acc_num (g_advance (aggregate ts)) = sum_numbers (map motorOwnerAdvance ts) \<and>
   acc_num (g_balance (aggregate ts)) = sum_numbers (map motorOwnerBalance ts)"
proof (induction ts rule: rev_induct)
  case Nil
  then show ?case by (simp add: group_init_def acc_num_def)
next
  case (snoc t ts)
  then show ?case
    by (simp add: group_step_def acc_num_step sum_numbers_snoc)
qed

lemma owner_row_of_aggregate:
  "owner_row_of (k, aggregate ts) =
     \<lparr>name = (if truthy k then k else Str ''Unknown''),
      tripsDone = Fin (int (length ts)),
      totalBhada = sum_numbers (map motorOwnerBhada ts),
      paid = sum_numbers (map motorOwnerAdvance ts),
      balance = sum_numbers (map motorOwnerBalance ts)\<rparr>"
  using aggregate_sums [of ts]
  by (simp add: owner_row_of_def js_or_def Number_sum_text aggregate_count
      StringToNumber_show_nat)

text \<open>The groups after each row: one per name seen, holding the aggregate of its rows.\<close>

lemma fst_group_add:
  "map fst (group_add t gs) =
     (if motorOwnerName t \<in> set (map fst gs) then map fst gs
      else map fst gs @ [motorOwnerName t])"
  by (induction gs) (auto split: if_splits)

lemma map_of_group_add:
  "map_of (group_add t gs) =
     (map_of gs)(motorOwnerName t \<mapsto>
        group_step t (case map_of gs (motorOwnerName t) of None \<Rightarrow> group_init | Some g \<Rightarrow> g))"
  by (induction gs) (auto simp: fun_eq_iff)

lemma groups_invariant:
  "distinct (map fst (foldl (\<lambda>gs t. group_add t gs) [] ts)) \<and>
   set (map fst (foldl (\<lambda>gs t. group_add t gs) [] ts)) = motorOwnerName ` set ts \<and>
   (\<forall>k. map_of (foldl (\<lambda>gs t. group_add t gs) [] ts) k =
          (if k \<in> motorOwnerName ` set ts
           then Some (aggregate (filter (\<lambda>t. motorOwnerName t = k) ts)) else None))"
proof (induction ts rule: rev_induct)
  case Nil
  then show ?case by simp
next
  case (snoc t ts)
  let ?gs = "foldl (\<lambda>gs t. group_add t gs) [] ts"
  from snoc have d: "distinct (map fst ?gs)"
    and s: "set (map fst ?gs) = motorOwnerName ` set ts"
    and m: "\<And>k. map_of ?gs k =
          (if k \<in> motorOwnerName ` set ts
           then Some (aggregate (filter (\<lambda>t. motorOwnerName t = k) ts)) else None)"
    by simp_all
  have f: "foldl (\<lambda>gs t. group_add t gs) [] (ts @ [t]) = group_add t ?gs"
    by simp
  have 1: "distinct (map fst (group_add t ?gs))"
    using d by (simp add: fst_group_add)
  have 2: "set (map fst (group_add t ?gs)) = motorOwnerName ` set (ts @ [t])"
    using s by (auto simp: fst_group_add)
  have none: "motorOwnerName t \<notin> motorOwnerName ` set ts \<Longrightarrow>
              filter (\<lambda>r. motorOwnerName r = motorOwnerName t) ts = []"
    by (force simp: filter_empty_conv image_iff)
  have 3: "map_of (group_add t ?gs) k =
          (if k \<in> motorOwnerName ` set (ts @ [t])
           then Some (aggregate (filter (\<lambda>t. motorOwnerName t = k) (ts @ [t]))) else None)" for k
    using none by (auto simp: map_of_group_add m)
  show ?case
    unfolding f using 1 2 3 by blast
qed

lemma groups_entry:
  assumes "(k, g) \<in> set (motorOwnerGroups tbl)"
  shows "g = aggregate (filter (\<lambda>t. vehicleType t = ''MARKET'' \<and> motorOwnerName t = k) (rows tbl))"
proof -
  let ?ms = "filter (\<lambda>t. vehicleType t = ''MARKET'') (rows tbl)"
  have d: "distinct (map fst (motorOwnerGroups tbl))"
    using groups_invariant [of ?ms] by (simp add: motorOwnerGroups_def)
  then have "map_of (motorOwnerGroups tbl) k = Some g"
    using assms by simp
  moreover have "map_of (motorOwnerGroups tbl) k =
      (if k \<in> motorOwnerName ` set ?ms
       then Some (aggregate (filter (\<lambda>t. motorOwnerName t = k) ?ms)) else None)"
    using groups_invariant [of ?ms] unfolding motorOwnerGroups_def by blast
  ultimately have "g = aggregate (filter (\<lambda>t. motorOwnerName t = k) ?ms)"
    by (simp split: if_splits)
  then show ?thesis
    by (simp add: conj_commute)
qed

text \<open>Whole-number text is read as the integer it writes, and sums of it are integers.\<close>

lemma digits_value_total:
  "list_all (\<lambda>c. digit_of c \<noteq> None) cs \<Longrightarrow> \<exists>n. digits_value cs acc = Some n"
  by (induction cs arbitrary: acc) auto

lemma whole_text_Number: "whole_text s \<Longrightarrow> \<exists>n. StringToNumber s = Fin n"
proof -
  assume w: "whole_text s"
  then obtain c cs where s: "s = c # cs"
    by (cases s) (auto simp: whole_text_def)
  show ?thesis
  proof (cases "c = CHR ''-'' \<or> c = CHR ''+''")
    case True
    then have "all_digits cs"
      using w s by (simp add: whole_text_def)
    then obtain n where "digits_value cs 0 = Some n" "cs \<noteq> []"
      using digits_value_total [of cs 0] by (auto simp: all_digits_def)
    then show ?thesis
      using True s by (simp add: StringToNumber_def)
  next
    case False
    then have "all_digits s"
      using w s by (simp add: whole_text_def)
    then obtain n where "digits_value s 0 = Some n"
      using digits_value_total [of s 0] by (auto simp: all_digits_def)
    then show ?thesis
      using False s by (simp add: StringToNumber_def)
  qed
qed

lemma whole_amount_Number: "whole_amount v \<Longrightarrow> Number v = Fin (whole_value v)"
proof (cases v)
  case (Str s)
  assume "whole_amount v"
  then obtain n where "StringToNumber s = Fin n"
    using Str whole_text_Number [of s] by (auto simp: whole_amount_def)
  then show ?thesis
    using Str by (simp add: whole_value_def)
qed (simp_all add: whole_amount_def whole_value_def)

lemma sum_numbers_whole:
  "list_all whole_amount vs \<Longrightarrow> sum_numbers vs = Fin (sum_list (map whole_value vs))"
proof (induction vs)
  case Nil
  then show ?case by simp
next
  case (Cons v vs)
  then have w: "whole_amount v" and ih: "sum_numbers vs = Fin (sum_list (map whole_value vs))"
    by simp_all
  show ?case
  proof (cases "v = Null")
    case True
    then have "whole_value v = 0"
      by (simp add: whole_value_def)
    then show ?thesis
      using True ih by simp
  next
    case False
    then have "v \<noteq> Undefined"
      using w by (auto simp: whole_amount_def)
    then show ?thesis
      using False ih whole_amount_Number [OF w] by simp
  qed
qed

text \<open>
  C7: the motor-owner analytics has one row per distinct motor-owner name among the trips
  whose vehicle type is \<^verbatim>\<open>'MARKET'\<close>, and only those trips count: a row holds the number of
  the owner's market trips and the sums of their hire, advance and balance; a row whose
  owner name is absent (\<open>Null\<close>; also the empty name) is labelled \<^verbatim>\<open>'Unknown'\<close>. SQL leaves
  the order of the groups open, so the rows are given for some duplicate-free list of the
  names. The amounts of the market trips are whole numbers (or \<open>null\<close>) with totals within
  \<open>2^53\<close>: there the sums the code returns as JavaScript numbers are these integers.
\<close>

theorem motor_owner_analytics_over_market_trips:
  assumes "whole_amounts (filter (\<lambda>t. vehicleType t = ''MARKET'') (rows tbl))"
  shows "\<exists>keys.
     distinct keys \<and>
     set keys = motorOwnerName ` {t \<in> set (rows tbl). vehicleType t = ''MARKET''} \<and>
     getMotorOwnerAnalytics tbl =
       map (\<lambda>k. \<lparr>name = (if truthy k then k else Str ''Unknown''),
                  tripsDone =
                    Fin (int (length (filter (\<lambda>t. vehicleType t = ''MARKET'' \<and> motorOwnerName t = k)
                                        (rows tbl)))),
                  totalBhada =
                    Fin (sum_list (map (\<lambda>t. whole_value (motorOwnerBhada t))
                      (filter (\<lambda>t. vehicleType t = ''MARKET'' \<and> motorOwnerName t = k) (rows tbl)))),
                  paid =
                    Fin (sum_list (map (\<lambda>t. whole_value (motorOwnerAdvance t))
                      (filter (\<lambda>t. vehicleType t = ''MARKET'' \<and> motorOwnerName t = k) (rows tbl)))),
                  balance =
                    Fin (sum_list (map (\<lambda>t. whole_value (motorOwnerBalance t))
                      (filter (\<lambda>t. vehicleType t = ''MARKET'' \<and> motorOwnerName t = k) (rows tbl))))\<rparr>)
         keys"
proof -
  let ?ms = "filter (\<lambda>t. vehicleType t = ''MARKET'') (rows tbl)"
  let ?gs = "motorOwnerGroups tbl"
  let ?grp = "\<lambda>k. filter (\<lambda>t. vehicleType t = ''MARKET'' \<and> motorOwnerName t = k) (rows tbl)"
  let ?row = "\<lambda>k. \<lparr>name = (if truthy k then k else Str ''Unknown''),
                  tripsDone = Fin (int (length (?grp k))),
                  totalBhada = Fin (sum_list (map (\<lambda>t. whole_value (motorOwnerBhada t)) (?grp k))),
                  paid = Fin (sum_list (map (\<lambda>t. whole_value (motorOwnerAdvance t)) (?grp k))),
                  balance = Fin (sum_list (map (\<lambda>t. whole_value (motorOwnerBalance t)) (?grp k)))\<rparr>"
  have d: "distinct (map fst ?gs)"
    using groups_invariant [of ?ms] by (simp add: motorOwnerGroups_def)
  have s: "set (map fst ?gs) = motorOwnerName ` {t \<in> set (rows tbl). vehicleType t = ''MARKET''}"
    using groups_invariant [of ?ms] by (simp add: motorOwnerGroups_def)
  have all: "list_all (\<lambda>t. whole_amount (motorOwnerBhada t) \<and> whole_amount (motorOwnerAdvance t) \<and>
                    whole_amount (motorOwnerBalance t)) ?ms"
    using assms by (simp add: whole_amounts_def)
  have grp: "?grp k = filter (\<lambda>t. motorOwnerName t = k) ?ms" for k
    by (simp add: conj_commute)
  have w: "list_all whole_amount (map motorOwnerBhada (?grp k)) \<and>
           list_all whole_amount (map motorOwnerAdvance (?grp k)) \<and>
           list_all whole_amount (map motorOwnerBalance (?grp k))" for k
    unfolding grp using all by (auto simp: list_all_iff)
  have sums: "sum_numbers (map motorOwnerBhada (?grp k)) =
                Fin (sum_list (map (\<lambda>t. whole_value (motorOwnerBhada t)) (?grp k))) \<and>
              sum_numbers (map motorOwnerAdvance (?grp k)) =
                Fin (sum_list (map (\<lambda>t. whole_value (motorOwnerAdvance t)) (?grp k))) \<and>
              sum_numbers (map motorOwnerBalance (?grp k)) =
                Fin (sum_list (map (\<lambda>t. whole_value (motorOwnerBalance t)) (?grp k)))" for k
    using w [of k]
      sum_numbers_whole [of "map motorOwnerBhada (?grp k)"]
      sum_numbers_whole [of "map motorOwnerAdvance (?grp k)"]
      sum_numbers_whole [of "map motorOwnerBalance (?grp k)"]
    by (simp add: comp_def)
  have "owner_row_of x = ?row (fst x)" if "x \<in> set ?gs" for x
  proof -
    obtain k g where x: "x = (k, g)" by (cases x)
    with that have "g = aggregate (?grp k)"
      using groups_entry by simp
    then show ?thesis
      using x sums [of k] by (simp add: owner_row_of_aggregate)
  qed
  then have "getMotorOwnerAnalytics tbl = map ?row (map fst ?gs)"
    by (simp add: getMotorOwnerAnalytics_def)
  with d s show ?thesis
    by blast
qed

theorem motor_owner_analytics_over_market_trips_witness:
  "whole_amounts (filter (\<lambda>t. vehicleType t = ''MARKET'') (rows ex_owner_table)) \<and>
   getMotorOwnerAnalytics ex_owner_table =
     [\<lparr>name = Str ''Singh'', tripsDone = Fin 2, totalBhada = Fin 200, paid = Fin 60,
        balance = Fin 140\<rparr>,
      \<lparr>name = Str ''Unknown'', tripsDone = Fin 1, totalBhada = Fin 50, paid = Fin 0,
        balance = Fin 50\<rparr>] \<and>
   (\<exists>keys.
      distinct keys \<and> set keys = {Str ''Singh'', Null} \<and>
      map name (getMotorOwnerAnalytics ex_owner_table) =
        map (\<lambda>k. if truthy k then k else Str ''Unknown'') keys)"
proof -
  have h: "whole_amounts (filter (\<lambda>t. vehicleType t = ''MARKET'') (rows ex_owner_table))"
    by code_simp
  have v: "getMotorOwnerAnalytics ex_owner_table =
     [\<lparr>name = Str ''Singh'', tripsDone = Fin 2, totalBhada = Fin 200, paid = Fin 60,
        balance = Fin 140\<rparr>,
      \<lparr>name = Str ''Unknown'', tripsDone = Fin 1, totalBhada = Fin 50, paid = Fin 0,
        balance = Fin 50\<rparr>]"
    by code_simp
  have k: "motorOwnerName ` {t \<in> set (rows ex_owner_table). vehicleType t = ''MARKET''} =
           {Str ''Singh'', Null}"
    by (simp only: set_filter [symmetric])
      (simp add: ex_owner_table_def ex_trip_def ex_trip2_def ex_trip3_def ex_trip4_def
        insert_commute)
  obtain keys where "distinct keys" and "set keys = {Str ''Singh'', Null}"
    and "getMotorOwnerAnalytics ex_owner_table =
       map (\<lambda>k. \<lparr>name = (if truthy k then k else Str ''Unknown''),
                  tripsDone =
                    Fin (int (length (filter (\<lambda>t. vehicleType t = ''MARKET'' \<and> motorOwnerName t = k)
                                        (rows ex_owner_table)))),
                  totalBhada =
                    Fin (sum_list (map (\<lambda>t. whole_value (motorOwnerBhada t))
                      (filter (\<lambda>t. vehicleType t = ''MARKET'' \<and> motorOwnerName t = k)
                         (rows ex_owner_table)))),
                  paid =
                    Fin (sum_list (map (\<lambda>t. whole_value (motorOwnerAdvance t))
                      (filter (\<lambda>t. vehicleType t = ''MARKET'' \<and> motorOwnerName t = k)
                         (rows ex_owner_table)))),
                  balance =
                    Fin (sum_list (map (\<lambda>t. whole_value (motorOwnerBalance t))
                      (filter (\<lambda>t. vehicleType t = ''MARKET'' \<and> motorOwnerName t = k)
                         (rows ex_owner_table))))\<rparr>)
         keys"
    using motor_owner_analytics_over_market_trips [OF h] unfolding k by blast
  then have "distinct keys \<and> set keys = {Str ''Singh'', Null} \<and>
      map name (getMotorOwnerAnalytics ex_owner_table) =
        map (\<lambda>k. if truthy k then k else Str ''Unknown'') keys"
    by (simp add: comp_def)
  with h v show ?thesis
    by blast
qed

section \<open>Login\<close>

text \<open>A buffer written in hexadecimal is read back; its text has no colon.\<close>

lemma hex_value_hex_char: "n < 16 \<Longrightarrow> hex_value (hex_char n) = Some n"
  by (auto simp: hex_value_def hex_char_def)

lemma hex_char_not_colon: "n < 16 \<Longrightarrow> hex_char n \<noteq> CHR '':''"
proof
  assume "n < 16" and "hex_char n = CHR '':''"
  then have "hex_value (CHR '':'') = Some n"
    using hex_value_hex_char [of n] by simp
  then show False
    by (simp add: hex_value_def)
qed

lemma byte_halves: "unat (b :: 8 word) div 16 < 16 \<and> unat b mod 16 < 16"
proof -
  have "unat b < 256"
    using unsigned_less [of b] by simp
  then show ?thesis
    by simp
qed

lemma byte_of_halves: "of_nat (16 * (unat (b :: 8 word) div 16) + unat b mod 16) = b"
  by simp

lemma Buffer_from_hex_toString_hex: "Buffer_from_hex (toString_hex buf) = buf"
proof (induction buf)
  case Nil
  then show ?case by (simp add: toString_hex_def)
next
  case (Cons b buf)
  have "Buffer_from_hex (toString_hex (b # buf)) =
        Buffer_from_hex (hex_char (unat b div 16) # hex_char (unat b mod 16) # toString_hex buf)"
    by (simp add: toString_hex_def)
  also have "\<dots> = of_nat (16 * (unat b div 16) + unat b mod 16) # Buffer_from_hex (toString_hex buf)"
    using byte_halves [of b] by (simp add: hex_value_hex_char)
  finally show ?case
    using Cons.IH byte_of_halves [of b] by simp
qed

lemma toString_hex_no_colon: "CHR '':'' \<notin> set (toString_hex buf)"
proof (induction buf)
  case Nil
  then show ?case by (simp add: toString_hex_def)
next
  case (Cons b buf)
  have "hex_char (unat b div 16) \<noteq> CHR '':''" and "hex_char (unat b mod 16) \<noteq> CHR '':''"
    using byte_halves [of b] hex_char_not_colon by simp_all
  then show ?case
    using Cons.IH by (auto simp: toString_hex_def)
qed

lemma split_from_no_sep: "sep \<notin> set s \<Longrightarrow> split_from sep piece s = [piece @ s]"
  by (induction s arbitrary: piece) auto

lemma split_from_sep:
  "sep \<notin> set a \<Longrightarrow> split_from sep piece (a @ sep # s) = (piece @ a) # split_from sep [] s"
  by (induction a arbitrary: piece) auto

lemma split_stored:
  "split CHR '':'' (toString_hex salt @ CHR '':'' # toString_hex key) =
   [toString_hex salt, toString_hex key]"
  using split_from_sep [of "CHR '':''" "toString_hex salt" "[]" "toString_hex key"]
    split_from_no_sep [of "CHR '':''" "toString_hex key" "[]"]
  by (simp add: split_def toString_hex_no_colon)

text \<open>Against a hash that \<^verbatim>\<open>hashPassword\<close> made, \<^verbatim>\<open>comparePasswords\<close> compares the derived keys.\<close>

lemma comparePasswords_hashPassword:
  assumes "\<And>p s. length (scrypt p s 64) = 64"
  shows "comparePasswords scrypt supplied (hashPassword scrypt randomBytes pw) =
         Inr (scrypt pw (toString_hex randomBytes) 64 = scrypt supplied (toString_hex randomBytes) 64)"
  by (simp add: comparePasswords_def hashPassword_def Let_def split_stored
      Buffer_from_hex_toString_hex timingSafeEqual_def assms)

text \<open>A request without a username or a password is refused before any account is looked up.\<close>

lemma login_missing_credentials:
  "uname = None \<or> uname = Some [] \<or> pw = None \<or> pw = Some [] \<Longrightarrow>
   login scrypt users uname pw session = ((400, StatusText), session)"
  by (auto simp: login_def authenticate_local_def split: option.splits)

text \<open>
  C9: a login with the username of an account and the password it was registered with is
  answered 200 with the user and leaves a session holding the user's id. A login with a
  username that no account has, and a login with the username of an account and a password
  whose derived key is not the stored one, are both answered 401 with the text of that
  status and leave the session as it was: the two responses are the same, whichever
  passwords were sent. The key derivation returns keys of the length asked for, and all
  usernames and passwords sent are non-empty.
\<close>

theorem login_succeeds_or_fails_alike:
  assumes "\<And>p s. length (scrypt p s 64) = 64"
    and "getUserByUsername uname users = Some u"
    and "password u = hashPassword scrypt randomBytes pw"
    and "getUserByUsername other users = None"
    and "scrypt wrong (toString_hex randomBytes) 64 \<noteq> scrypt pw (toString_hex randomBytes) 64"
    and "uname \<noteq> []" and "pw \<noteq> []" and "other \<noteq> []" and "wrong \<noteq> []" and "any \<noteq> []"
  shows "login scrypt users (Some uname) (Some pw) session = ((200, UserJson u), Some (user_id u)) \<and>
         login scrypt users (Some uname) (Some wrong) session = ((401, StatusText), session) \<and>
         login scrypt users (Some other) (Some any) session = ((401, StatusText), session) \<and>
         login scrypt users (Some uname) (Some wrong) session =
           login scrypt users (Some other) (Some any) session"
proof -
  have ok: "comparePasswords scrypt pw (password u) = Inr True"
    using comparePasswords_hashPassword [of scrypt, OF assms(1)] assms(3) by simp
  have bad: "comparePasswords scrypt wrong (password u) = Inr False"
    using comparePasswords_hashPassword [of scrypt, OF assms(1)] assms(3) assms(5) by auto
  have 1: "login scrypt users (Some uname) (Some pw) session = ((200, UserJson u), Some (user_id u))"
    using assms(2) assms(6) assms(7) ok
    by (simp add: login_def authenticate_local_def verify_def)
  have 2: "login scrypt users (Some uname) (Some wrong) session = ((401, StatusText), session)"
    using assms(2) assms(6) assms(9) bad
    by (simp add: login_def authenticate_local_def verify_def)
  have 3: "login scrypt users (Some other) (Some any) session = ((401, StatusText), session)"
    using assms(4) assms(8) assms(10)
    by (simp add: login_def authenticate_local_def verify_def)
  from 1 2 3 show ?thesis
    by simp
qed

theorem login_succeeds_or_fails_alike_witness:
  "login ex_scrypt ex_users (Some ''ravi'') (Some ''secret'') None =
     ((200, UserJson ex_registered), Some 2) \<and>
   login ex_scrypt ex_users (Some ''ravi'') (Some ''guess'') None = ((401, StatusText), None) \<and>
   login ex_scrypt ex_users (Some ''nobody'') (Some ''secret'') None = ((401, StatusText), None)"
proof -
  have len: "\<And>p s. length (ex_scrypt p s 64) = 64"
    by (simp add: ex_scrypt_def)
  have u: "getUserByUsername ''ravi'' ex_users = Some ex_registered"
    by (simp add: getUserByUsername_def ex_users_def ex_admin_def ex_registered_def)
  have h: "password ex_registered = hashPassword ex_scrypt ex_salt ''secret''"
    by (simp add: ex_registered_def)
  have n: "getUserByUsername ''nobody'' ex_users = None"
    by (simp add: getUserByUsername_def ex_users_def ex_admin_def ex_registered_def)
  have k: "ex_scrypt ''guess'' (toString_hex ex_salt) 64 \<noteq> ex_scrypt ''secret'' (toString_hex ex_salt) 64"
    by (simp add: ex_scrypt_def)
  have i: "user_id ex_registered = 2"
    by (simp add: ex_registered_def)
  show ?thesis
    using login_succeeds_or_fails_alike [where scrypt = ex_scrypt and uname = "''ravi''"
        and users = ex_users and u = ex_registered and randomBytes = ex_salt
        and pw = "''secret''" and other = "''nobody''" and wrong = "''guess''"
        and any = "''secret''" and session = None, OF len u h n k]
    by (simp add: i)
qed

section \<open>The balances the handlers store\<close>


lemma jcolumn_calcBalance: "jcolumn (calcBalance a b) d = calcBalance a b"
  by (simp add: jcolumn_def calcBalance_def)

text \<open>
  The create handler stores the balances it computes from the payload's amounts, whatever
  balances the payload carries.
\<close>

lemma create_balances:
  "\<exists>newTrip tbl'.
     createTripHandler (Some u) year (Inr input) tbl = ((201, TripJson (Some newTrip)), tbl') \<and>
     motorOwnerBalance newTrip =
       calcBalance (in_motorOwnerBhada input) (in_motorOwnerAdvance input) \<and>
     partyBalance newTrip = calcBalance (in_partyFreight input) (in_partyAdvance input)"
  by (simp add: createTripHandler_accepts Let_def set_columns_def jcolumn_calcBalance)

text \<open>
  The balances in the row an accepted update returns: the ones the handler puts into the
  object it hands to the ledger.
\<close>

lemma updated_balances:
  "motorOwnerBalance (set_columns (update_values input (driver_row t)) t) =
     in_motorOwnerBalance (update_values input (driver_row t)) \<and>
   partyBalance (set_columns (update_values input (driver_row t)) t) =
     in_partyBalance (update_values input (driver_row t))"
  using update_values_balances [of input t] by (simp add: set_columns_def jcolumn_def)

lemma updated_amounts:
  "partyFreight (set_columns (update_values input e) t) =
     jcolumn (in_partyFreight input) (partyFreight t)"
  "partyAdvance (set_columns (update_values input e) t) =
     jcolumn (in_partyAdvance input) (partyAdvance t)"
  "motorOwnerBhada (set_columns (update_values input e) t) =
     jcolumn (in_motorOwnerBhada input) (motorOwnerBhada t)"
  "motorOwnerAdvance (set_columns (update_values input e) t) =
     jcolumn (in_motorOwnerAdvance input) (motorOwnerAdvance t)"
  by (simp_all add: set_columns_def update_values_def Let_def)


lemma Number_calcBalance: "Number (calcBalance a b) = js_sub (amount a) (amount b)"
  by (simp add: calcBalance_def amount_def Number_toString del: Number.simps(4))

lemma amount_jcolumn_missing:
  "amount d = Fin 0 \<Longrightarrow> amount (jcolumn v d) = amount v"
  by (cases "v = Undefined") (simp_all add: jcolumn_def amount_def js_or_def)

text \<open>
  Every created trip satisfies the invariant, provided a column the payload leaves out
  defaults to nothing or to zero.
\<close>

lemma create_establishes_balance_ok:
  assumes "amount (partyFreight (defaults tbl)) = Fin 0"
    and "amount (partyAdvance (defaults tbl)) = Fin 0"
    and "amount (motorOwnerBhada (defaults tbl)) = Fin 0"
    and "amount (motorOwnerAdvance (defaults tbl)) = Fin 0"
  shows "\<exists>newTrip tbl'.
           createTripHandler (Some u) year (Inr input) tbl = ((201, TripJson (Some newTrip)), tbl') \<and>
           balance_ok newTrip"
  using assms
  by (simp add: createTripHandler_accepts Let_def set_columns_def balance_ok_def
      jcolumn_calcBalance Number_calcBalance amount_jcolumn_missing del: Number.simps(4))

lemma nullish_is_jcolumn: "missing_or_truthy v \<Longrightarrow> nullish v d = jcolumn v d"
  by (auto simp: missing_or_truthy_def nullish_def jcolumn_def)

lemma amount_driver_value [simp]: "amount (driver_value v) = amount v"
  by (simp add: driver_value_def amount_def js_or_def)

lemma amount_nullish_driver:
  "missing_or_truthy v \<Longrightarrow> amount (nullish v (driver_value d)) = amount (jcolumn v d)"
  by (auto simp: missing_or_truthy_def nullish_def jcolumn_def)

text \<open>
  An accepted update keeps the invariant when every amount in its payload is missing or
  truthy (the stored balances being text or \<open>null\<close>, as in every row the driver delivers).
\<close>

lemma update_keeps_balance_ok:
  assumes "getTrip i tbl = Some t" and "balance_ok t"
    and "partyBalance t \<noteq> Undefined" and "motorOwnerBalance t \<noteq> Undefined"
    and "role u = ROLES_ADMIN \<or>
         status t \<noteq> TRIP_STATUS_COMPLETED \<and> status t \<noteq> TRIP_STATUS_SETTLED \<and>
         in_motorOwnerBhada input = Undefined"
    and "missing_or_truthy (in_partyFreight input)"
    and "missing_or_truthy (in_partyAdvance input)"
    and "missing_or_truthy (in_motorOwnerBhada input)"
    and "missing_or_truthy (in_motorOwnerAdvance input)"
  shows "\<exists>t' tbl'.
           updateTripHandler (Some u) i (Inr input) tbl = ((200, TripJson (Some t')), tbl') \<and>
           getTrip i tbl' = Some t' \<and> balance_ok t'"
proof -
  let ?p = "update_values input (driver_row t)"
  let ?tbl = "tbl\<lparr>rows := map (\<lambda>r. if id_col r = i then set_columns ?p r else r) (rows tbl)\<rparr>"
  have h: "updateTripHandler (Some u) i (Inr input) tbl =
             ((200, TripJson (Some (set_columns ?p t))), ?tbl)"
    by (rule updateTripHandler_accepts [OF assms(1,5)])
  have g: "getTrip i ?tbl = Some (set_columns ?p t)"
    by (rule getTrip_after_accepted_update [OF assms(1)])
  have party: "Number (in_partyBalance ?p) =
      js_sub (amount (jcolumn (in_partyFreight input) (partyFreight t)))
        (amount (jcolumn (in_partyAdvance input) (partyAdvance t)))"
  proof (cases "truthy (js_or (in_partyFreight input) (in_partyAdvance input))")
    case True
    then show ?thesis
      using assms(6,7)
      by (simp add: update_values_def Let_def Number_calcBalance driver_row_def
          amount_nullish_driver)
  next
    case False
    then have "in_partyFreight input = Undefined" "in_partyAdvance input = Undefined"
      using assms(6,7) by (auto simp: js_or_def missing_or_truthy_def split: if_splits)
    then show ?thesis
      using False assms(2,3)
      by (simp add: update_values_def Let_def jcolumn_def balance_ok_def driver_row_def
          driver_value_def)
  qed
  have owner: "Number (in_motorOwnerBalance ?p) =
      js_sub (amount (jcolumn (in_motorOwnerBhada input) (motorOwnerBhada t)))
        (amount (jcolumn (in_motorOwnerAdvance input) (motorOwnerAdvance t)))"
  proof (cases "truthy (js_or (in_motorOwnerBhada input) (in_motorOwnerAdvance input))")
    case True
    then show ?thesis
      using assms(8,9)
      by (simp add: update_values_def Let_def Number_calcBalance driver_row_def
          amount_nullish_driver)
  next
    case False
    then have "in_motorOwnerBhada input = Undefined" "in_motorOwnerAdvance input = Undefined"
      using assms(8,9) by (auto simp: js_or_def missing_or_truthy_def split: if_splits)
    then show ?thesis
      using False assms(2,4)
      by (simp add: update_values_def Let_def jcolumn_def balance_ok_def driver_row_def
          driver_value_def)
  qed
  have "balance_ok (set_columns ?p t)"
    unfolding balance_ok_def using updated_balances [of input t] party owner
    by (simp add: updated_amounts)
  with h g show ?thesis
    by blast
qed



text \<open>
  C2 says that after every successful create or update the stored balances are freight
  minus party advance and bhada minus owner advance. The create handler keeps this (it
  stores 300 and 70 for freight 500, advance 200, bhada 100, advance 30, not the 999 the
  caller sent). An update whose payload sets the two advances to \<open>null\<close> is answered with
  200 and stores them, but both balances are carried forward: the row then holds freight
  500, bhada 100, no advances, and the balances 300 and 70, where gross minus advance is
  500 and 100. The invariant, which held for the created row, no longer holds.
\<close>

theorem update_with_null_advances_breaks_the_balances:
  "createTripHandler (Some ex_manager) 2026 (Inr ex_payload) ex_empty_table =
     ((201, TripJson (Some ex_trip)), ex_table) \<and>
   balance_ok ex_trip \<and>
   updateTripHandler (Some ex_manager) 1
       (Inr (no_fields\<lparr>in_partyAdvance := Null, in_motorOwnerAdvance := Null\<rparr>)) ex_table =
     ((200, TripJson (Some (ex_trip\<lparr>partyAdvance := Null, motorOwnerAdvance := Null\<rparr>))),
      ex_table\<lparr>rows := [ex_trip\<lparr>partyAdvance := Null, motorOwnerAdvance := Null\<rparr>]\<rparr>) \<and>
   partyBalance (ex_trip\<lparr>partyAdvance := Null, motorOwnerAdvance := Null\<rparr>) = Str ''300'' \<and>
   motorOwnerBalance (ex_trip\<lparr>partyAdvance := Null, motorOwnerAdvance := Null\<rparr>) = Str ''70'' \<and>
   calcBalance (Str ''500'') Null = Str ''500'' \<and>
   calcBalance (Str ''100'') Null = Str ''100'' \<and>
   \<not> balance_ok (ex_trip\<lparr>partyAdvance := Null, motorOwnerAdvance := Null\<rparr>)"
  by code_simp

end
